theory Spec2Isabelle
  imports Complex_Main
begin

section \<open>The arithmetic expression evaluator of eval.cpp\<close>

text \<open>
  The program tokenizes and parses a line of arithmetic expressions with a
  recursive-descent parser (\<open>level1\<close> ... \<open>level_top\<close>) that emits a flat postfix
  sequence of symbols, and then replays that sequence twice: \<open>understanding\<close> over a
  stack of strings, \<open>run\<close> over a stack of doubles.

  Modelling decisions.
  \<^item> The input \<open>const char *line\<close> is a \<open>string\<close>; reading \<open>line[pos]\<close> at or beyond its
    length gives the terminating NUL. \<open>pos\<close>, the \<open>unsigned int\<close> fields and indices are
    natural numbers: the model covers input lines shorter than \<open>2 ^ 32\<close> characters.
  \<^item> The type \<open>double\<close> and everything the program takes from the C and C++ libraries
    about it (\<open>strtod\<close>'s value, the arithmetic of the processor, \<open>cmath\<close>, the stream
    output of a double) is a parameter of the model, the record \<open>numerics\<close> over a
    type \<open>'d\<close> of values. Theorems that hold for every such record hold for IEEE
    doubles in particular.
  \<^item> \<open>cout\<close> is a list of output events carried in the evaluator's state.
  \<^item> \<open>s.back()\<close> and \<open>s.pop_back()\<close> on an empty vector and \<open>constants[i]\<close> out of range
    are undefined behaviour in C++; the model returns a \<open>fault\<close> there.
  \<^item> The mutually recursive parsing functions carry a fuel argument that bounds the
    depth of the calls; \<open>parse\<close> supplies fuel that is proved to be enough for every
    input.
\<close>

subsection \<open>Characters (cctype, "C" locale)\<close>

definition NUL :: char where
  "NUL = CHR 0x00"

definition newline :: char where
  "newline = CHR 0x0A"

definition isspace :: "char \<Rightarrow> bool" where
  "isspace c = (c \<in> set [CHR '' '', CHR 0x09, CHR 0x0A, CHR 0x0B, CHR 0x0C, CHR 0x0D])"

definition isdigit :: "char \<Rightarrow> bool" where
  "isdigit c = (c \<in> set ''0123456789'')"

definition isalpha :: "char \<Rightarrow> bool" where
  "isalpha c = (c \<in> set ''abcdefghijklmnopqrstuvwxyzABCDEFGHIJKLMNOPQRSTUVWXYZ'')"

definition isalnum :: "char \<Rightarrow> bool" where
  "isalnum c = (isalpha c \<or> isdigit c)"

definition isxdigit :: "char \<Rightarrow> bool" where
  "isxdigit c = (c \<in> set ''0123456789abcdefABCDEF'')"

definition isprint :: "char \<Rightarrow> bool" where
  "isprint c = (32 \<le> (of_char c :: nat) \<and> (of_char c :: nat) \<le> 126)"

subsection \<open>Symbols, variables and the evaluator's state\<close>

datatype SymbolType = ASSIGN | CONSTANT | MATHFN | OPERATOR

text \<open>The enumeration \<open>MathFunctions\<close>, stored in the \<open>unsigned int\<close> field of a symbol.\<close>

definition EXP :: nat where "EXP = 0"
definition COS :: nat where "COS = 1"
definition LOG :: nat where "LOG = 2"
definition SIN :: nat where "SIN = 3"
definition TAN :: nat where "TAN = 4"

text \<open>
  A \<open>Symbol\<close> is a type and a value: an index into the constants, a member of
  \<open>MathFunctions\<close>, or the character of an operator converted to \<open>unsigned int\<close>.
\<close>

datatype Symbol = Symbol (sym_type: SymbolType) (sym_value: nat)

definition op_code :: "char \<Rightarrow> nat" where
  "op_code c = of_char c"

datatype 'd Variable = Variable (var_name: string) (var_value: 'd)

datatype 'd out_event = Text string | Evaluation 'd

record 'd Evaluator =
  constants :: "'d list"
  symbols :: "Symbol list"
  variables :: "'d Variable list"
  line :: string
  pos :: nat
  cout :: "'d out_event list"

text \<open>What the program takes from the platform about \<open>double\<close>.\<close>

record 'd numerics =
  strtod_value :: "string \<Rightarrow> 'd"
  stream_out :: "'d \<Rightarrow> string"
  fneg :: "'d \<Rightarrow> 'd"
  fadd :: "'d \<Rightarrow> 'd \<Rightarrow> 'd"
  fsub :: "'d \<Rightarrow> 'd \<Rightarrow> 'd"
  fmul :: "'d \<Rightarrow> 'd \<Rightarrow> 'd"
  fdiv :: "'d \<Rightarrow> 'd \<Rightarrow> 'd"
  fpow :: "'d \<Rightarrow> 'd \<Rightarrow> 'd"
  fcos :: "'d \<Rightarrow> 'd"
  fexp :: "'d \<Rightarrow> 'd"
  flog :: "'d \<Rightarrow> 'd"
  fsin :: "'d \<Rightarrow> 'd"
  ftan :: "'d \<Rightarrow> 'd"

definition dtostr :: "'d numerics \<Rightarrow> 'd \<Rightarrow> string" where
  "dtostr fp d = stream_out fp d"

text \<open>The constructor: two named values, the literals converted as \<open>strtod\<close> would.\<close>

definition Evaluator_new :: "'d numerics \<Rightarrow> 'd Evaluator" where
  "Evaluator_new fp =
     \<lparr>constants = [], symbols = [],
      variables = [Variable ''e'' (strtod_value fp ''2.7182818284590452353603''),
                   Variable ''pi'' (strtod_value fp ''3.1415926535897932384626'')],
      line = [], pos = 0, cout = []\<rparr>"

definition clear :: "'d Evaluator \<Rightarrow> 'd Evaluator" where
  "clear ev = ev\<lparr>constants := [], symbols := []\<rparr>"

subsection \<open>The cursor\<close>

definition char_at :: "string \<Rightarrow> nat \<Rightarrow> char" where
  "char_at l i = (if i < length l then l ! i else NUL)"

definition cur :: "'d Evaluator \<Rightarrow> char" where
  "cur ev = char_at (line ev) (pos ev)"

text \<open>The C string that starts at \<open>&line[pos]\<close>.\<close>

definition rest :: "'d Evaluator \<Rightarrow> string" where
  "rest ev = takeWhile (\<lambda>c. c \<noteq> NUL) (drop (pos ev) (line ev))"

definition println :: "string \<Rightarrow> 'd Evaluator \<Rightarrow> 'd Evaluator" where
  "println m ev = ev\<lparr>cout := cout ev @ [Text m]\<rparr>"

definition push_symbol :: "Symbol \<Rightarrow> 'd Evaluator \<Rightarrow> 'd Evaluator" where
  "push_symbol sy ev = ev\<lparr>symbols := symbols ev @ [sy]\<rparr>"

definition push_constant :: "'d \<Rightarrow> 'd Evaluator \<Rightarrow> 'd Evaluator" where
  "push_constant x ev = ev\<lparr>constants := constants ev @ [x]\<rparr>"

fun find_variable_from :: "'d Variable list \<Rightarrow> string \<Rightarrow> nat \<Rightarrow> nat" where
  "find_variable_from [] nm i = i"
| "find_variable_from (v # vs) nm i =
     (if var_name v = nm then i else find_variable_from vs nm (i + 1))"

definition find_variable :: "'d Evaluator \<Rightarrow> string \<Rightarrow> nat" where
  "find_variable ev nm = find_variable_from (variables ev) nm 0"

text \<open>
  \<open>error\<close>: the message, a line break, up to \<open>l = 20\<close> characters of the line from the
  cursor (an unprintable one after a backslash), a line break and a caret.
\<close>

definition error :: "'d Evaluator \<Rightarrow> string \<Rightarrow> string" where
  "error ev m =
     m @ [newline]
       @ concat (map (\<lambda>c. if isprint c then [c] else [CHR 0x5C, c]) (take 20 (rest ev)))
       @ [newline] @ ''^''"

function eatspace :: "'d Evaluator \<Rightarrow> 'd Evaluator" where
  "eatspace ev = (if isspace (cur ev) then eatspace (ev\<lparr>pos := pos ev + 1\<rparr>) else ev)"
  by pat_completeness auto
termination
  by (relation "measure (\<lambda>ev. length (line ev) - pos ev)")
     (auto simp: cur_def char_at_def isspace_def NUL_def split: if_splits)

definition nextch :: "'d Evaluator \<Rightarrow> 'd Evaluator" where
  "nextch ev = eatspace (ev\<lparr>pos := pos ev + 1\<rparr>)"

definition isname :: "char \<Rightarrow> bool" where
  "isname ch = (isalnum ch \<or> ch = CHR ''_'')"

text \<open>\<open>get_name\<close> is a do-while loop: the character under the cursor is always taken.\<close>

function get_name_loop :: "string \<Rightarrow> 'd Evaluator \<Rightarrow> string \<times> 'd Evaluator" where
  "get_name_loop nm ev =
     (let nm1 = nm @ [cur ev]; ev1 = ev\<lparr>pos := pos ev + 1\<rparr>
      in if isname (cur ev1) then get_name_loop nm1 ev1 else (nm1, ev1))"
  by pat_completeness auto
termination
  by (relation "measure (\<lambda>(nm, ev). Suc (length (line ev)) - pos ev)")
     (auto simp: cur_def char_at_def isname_def isalnum_def isalpha_def isdigit_def NUL_def
           split: if_splits)

definition get_name :: "'d Evaluator \<Rightarrow> string \<times> 'd Evaluator" where
  "get_name ev = get_name_loop [] ev"

subsection \<open>strtod\<close>

text \<open>
  The length of the text that \<open>strtod\<close> converts, by the C standard, for a text that
  starts with a digit (the only way \<open>get_double\<close> is called): a decimal
  floating-point number \<open>digits [. digits] [(e|E) [+|-] digits]\<close>, or a hexadecimal one
  \<open>0(x|X) hexdigits [. hexdigits] [(p|P) [+|-] digits]\<close> with at least one hexadecimal
  digit. An exponent part without a digit is not part of the number.
\<close>

definition span_len :: "(char \<Rightarrow> bool) \<Rightarrow> string \<Rightarrow> nat" where
  "span_len P cs = length (takeWhile P cs)"

definition exponent_len :: "string \<Rightarrow> string \<Rightarrow> nat" where
  "exponent_len marks cs =
     (case cs of
        [] \<Rightarrow> 0
      | c # cs1 \<Rightarrow>
          if c \<in> set marks then
            (let sg = (case cs1 of [] \<Rightarrow> 0 | d # _ \<Rightarrow> if d = CHR ''+'' \<or> d = CHR ''-'' then 1 else 0);
                 k = span_len isdigit (drop sg cs1)
             in if k = 0 then 0 else 1 + sg + k)
          else 0)"

definition mantissa_len :: "(char \<Rightarrow> bool) \<Rightarrow> string \<Rightarrow> nat \<times> nat" where
  "mantissa_len P cs =
     (let k = span_len P cs
      in case drop k cs of
           c # cs1 \<Rightarrow> if c = CHR ''.'' then (k, 1 + span_len P cs1) else (k, 0)
         | [] \<Rightarrow> (k, 0))"

definition strtod_len :: "string \<Rightarrow> nat" where
  "strtod_len cs =
     (let (i, f) = mantissa_len isdigit cs;
          dec = i + f + exponent_len ''eE'' (drop (i + f) cs)
      in case cs of
           c0 # c1 # cs2 \<Rightarrow>
             if c0 = CHR ''0'' \<and> (c1 = CHR ''x'' \<or> c1 = CHR ''X'') then
               (let (hi, hf) = mantissa_len isxdigit cs2
                in if hi = 0 \<and> hf \<le> 1 then dec
                   else 2 + hi + hf + exponent_len ''pP'' (drop (hi + hf) cs2))
             else dec
         | _ \<Rightarrow> dec)"

definition get_double :: "'d numerics \<Rightarrow> 'd Evaluator \<Rightarrow> 'd \<times> 'd Evaluator" where
  "get_double fp ev =
     (let txt = take (strtod_len (rest ev)) (rest ev)
      in (strtod_value fp txt, ev\<lparr>pos := pos ev + length txt\<rparr>))"


declare eatspace.simps [simp del]
declare get_name_loop.simps [simp del]

subsection \<open>The parser\<close>

text \<open>
  Each parsing function returns its \<open>bool\<close> and the state it leaves; \<open>None\<close> is an
  exhausted fuel. A \<open>while\<close> loop is the function \<open>_loop\<close> beside its level.
\<close>

definition fn_code :: "string \<Rightarrow> nat option" where
  "fn_code nm =
     (if nm = ''cos'' then Some COS
      else if nm = ''exp'' then Some EXP
      else if nm = ''log'' then Some LOG
      else if nm = ''sin'' then Some SIN
      else if nm = ''tan'' then Some TAN
      else None)"

fun level1 :: "'d numerics \<Rightarrow> nat \<Rightarrow> 'd Evaluator \<Rightarrow> (bool \<times> 'd Evaluator) option"
  and level1_loop :: "'d numerics \<Rightarrow> nat \<Rightarrow> 'd Evaluator \<Rightarrow> (bool \<times> 'd Evaluator) option"
  and level2 :: "'d numerics \<Rightarrow> nat \<Rightarrow> 'd Evaluator \<Rightarrow> (bool \<times> 'd Evaluator) option"
  and level2_loop :: "'d numerics \<Rightarrow> nat \<Rightarrow> 'd Evaluator \<Rightarrow> (bool \<times> 'd Evaluator) option"
  and level3 :: "'d numerics \<Rightarrow> nat \<Rightarrow> 'd Evaluator \<Rightarrow> (bool \<times> 'd Evaluator) option"
  and level4 :: "'d numerics \<Rightarrow> nat \<Rightarrow> 'd Evaluator \<Rightarrow> (bool \<times> 'd Evaluator) option"
  and level4_loop :: "'d numerics \<Rightarrow> nat \<Rightarrow> 'd Evaluator \<Rightarrow> (bool \<times> 'd Evaluator) option"
  and level_top :: "'d numerics \<Rightarrow> nat \<Rightarrow> 'd Evaluator \<Rightarrow> (bool \<times> 'd Evaluator) option"
where
  "level1 fp 0 ev = None"
| "level1 fp (Suc n) ev =
     (case level2 fp n ev of
        None \<Rightarrow> None
      | Some (ok, ev1) \<Rightarrow> if \<not> ok then Some (False, ev1) else level1_loop fp n ev1)"
| "level1_loop fp 0 ev = None"
| "level1_loop fp (Suc n) ev =
     (if cur ev = CHR ''+'' \<or> cur ev = CHR ''-'' then
        (case level2 fp n (nextch ev) of
           None \<Rightarrow> None
         | Some (ok, ev1) \<Rightarrow>
             if \<not> ok then Some (False, ev1)
             else level1_loop fp n
                    (if cur ev = CHR ''+''
                     then push_symbol (Symbol OPERATOR (op_code CHR ''+'')) ev1
                     else push_symbol (Symbol OPERATOR (op_code CHR ''-'')) ev1))
      else Some (True, ev))"
| "level2 fp 0 ev = None"
| "level2 fp (Suc n) ev =
     (case level3 fp n ev of
        None \<Rightarrow> None
      | Some (ok, ev1) \<Rightarrow> if \<not> ok then Some (False, ev1) else level2_loop fp n ev1)"
| "level2_loop fp 0 ev = None"
| "level2_loop fp (Suc n) ev =
     (if cur ev = CHR ''*'' \<or> cur ev = CHR ''/'' then
        (case level3 fp n (nextch ev) of
           None \<Rightarrow> None
         | Some (ok, ev1) \<Rightarrow>
             if \<not> ok then Some (False, ev1)
             else level2_loop fp n
                    (if cur ev = CHR ''*''
                     then push_symbol (Symbol OPERATOR (op_code CHR ''*'')) ev1
                     else push_symbol (Symbol OPERATOR (op_code CHR ''/'')) ev1))
      else Some (True, ev))"
| "level3 fp 0 ev = None"
| "level3 fp (Suc n) ev =
     (if cur ev = CHR ''-'' then
        (case level3 fp n (nextch ev) of
           None \<Rightarrow> None
         | Some (ok, ev1) \<Rightarrow>
             if \<not> ok then Some (False, ev1)
             else Some (True, push_symbol (Symbol OPERATOR (op_code CHR ''n'')) ev1))
      else
        (case level4 fp n ev of
           None \<Rightarrow> None
         | Some (ok, ev1) \<Rightarrow> if \<not> ok then Some (False, ev1) else Some (True, ev1)))"
| "level4 fp 0 ev = None"
| "level4 fp (Suc n) ev =
     (case level_top fp n ev of
        None \<Rightarrow> None
      | Some (ok, ev1) \<Rightarrow> if \<not> ok then Some (False, ev1) else level4_loop fp n ev1)"
| "level4_loop fp 0 ev = None"
| "level4_loop fp (Suc n) ev =
     (if cur ev = CHR ''^'' then
        (case level3 fp n (nextch ev) of
           None \<Rightarrow> None
         | Some (ok, ev1) \<Rightarrow>
             if \<not> ok then Some (False, ev1)
             else level4_loop fp n (push_symbol (Symbol OPERATOR (op_code CHR ''^'')) ev1))
      else Some (True, ev))"
| "level_top fp 0 ev = None"
| "level_top fp (Suc n) ev =
     (if isdigit (cur ev) then
        (let (x, ev1) = get_double fp ev;
             ev2 = eatspace (push_constant x ev1)
         in Some (True, push_symbol (Symbol CONSTANT (length (constants ev2) - 1)) ev2))
      else if cur ev = CHR ''('' then
        (case level1 fp n (nextch ev) of
           None \<Rightarrow> None
         | Some (ok, ev1) \<Rightarrow>
             if \<not> ok then Some (False, ev1)
             else if cur ev1 \<noteq> CHR '')''
             then Some (False, println (error ev1 (''expected ')'' @ [CHR 0x27])) ev1)
             else Some (True, nextch ev1))
      else if isalpha (cur ev) \<or> cur ev = CHR ''_'' then
        (let (nm, ev1) = get_name ev;
             ev2 = eatspace ev1
         in case fn_code nm of
              Some f \<Rightarrow>
                (case level3 fp n ev2 of
                   None \<Rightarrow> None
                 | Some (ok, ev3) \<Rightarrow>
                     if \<not> ok then Some (False, ev3)
                     else Some (True, push_symbol (Symbol MATHFN f) ev3))
            | None \<Rightarrow>
                (let i = find_variable ev2 nm
                 in if i \<noteq> length (variables ev2) then
                      (let ev3 = push_constant (var_value (variables ev2 ! i)) ev2
                       in Some (True, push_symbol (Symbol CONSTANT (length (constants ev3) - 1)) ev3))
                    else Some (False, println (error ev2 (''unknown name: '' @ nm)) ev2)))
      else if cur ev = NUL then
        Some (True, println (error ev ''unexpected end of input'') ev)
      else Some (False, println (error ev ''unexpected character'') ev))"


text \<open>
  \<open>parse\<close> sets the line, skips the initial whitespace and compiles one statement after
  the other. A parsing function that starts \<open>k\<close> characters before the end of the line
  needs at most \<open>5 * k + 5\<close> nested calls, which is the fuel \<open>parse\<close> supplies.
\<close>

fun parse_loop :: "'d numerics \<Rightarrow> nat \<Rightarrow> 'd Evaluator \<Rightarrow> (bool \<times> 'd Evaluator) option" where
  "parse_loop fp 0 ev = None"
| "parse_loop fp (Suc n) ev =
     (if cur ev \<noteq> NUL then
        (case level1 fp n ev of
           None \<Rightarrow> None
         | Some (ok, ev1) \<Rightarrow>
             if \<not> ok then Some (False, ev1)
             else if cur ev1 \<noteq> CHR '';'' \<and> cur ev1 \<noteq> NUL
             then Some (False, println (error ev1 (''expected ';'' @ [CHR 0x27] @ '' or end of input'')) ev1)
             else (let ev2 = push_symbol (Symbol OPERATOR (op_code CHR '';'')) ev1
                   in parse_loop fp n (if cur ev2 = CHR '';'' then nextch ev2 else ev2)))
      else Some (True, ev))"

definition parse :: "'d numerics \<Rightarrow> string \<Rightarrow> 'd Evaluator \<Rightarrow> (bool \<times> 'd Evaluator) option" where
  "parse fp str ev =
     parse_loop fp (5 * length str + 7) (eatspace (ev\<lparr>line := str, pos := 0\<rparr>))"

subsection \<open>The two interpreters\<close>

datatype fault = EmptyStackAccess | ConstantIndexOutOfRange

text \<open>The working stack is a list whose head is \<open>s.back()\<close>.\<close>

definition fn_name :: "nat \<Rightarrow> string option" where
  "fn_name v =
     (if v = COS then Some ''cos''
      else if v = EXP then Some ''exp''
      else if v = LOG then Some ''log''
      else if v = SIN then Some ''sin''
      else if v = TAN then Some ''tan''
      else None)"

definition binop_char :: "nat \<Rightarrow> char option" where
  "binop_char v =
     (if v = op_code CHR ''+'' then Some CHR ''+''
      else if v = op_code CHR ''-'' then Some CHR ''-''
      else if v = op_code CHR ''*'' then Some CHR ''*''
      else if v = op_code CHR ''/'' then Some CHR ''/''
      else if v = op_code CHR ''^'' then Some CHR ''^''
      else None)"

text \<open>
  The loop of \<open>understanding\<close> over the symbols from index \<open>i\<close> on, with the stack \<open>s\<close>
  and the text \<open>expr\<close>; the result is the returned string and whether \<open>unfinished\<close>
  was printed.
\<close>

fun understanding_loop ::
  "'d numerics \<Rightarrow> 'd list \<Rightarrow> Symbol list \<Rightarrow> string list \<Rightarrow> string \<Rightarrow> fault + (string \<times> bool)"
where
  "understanding_loop fp cs [] s expr =
     (if length s \<noteq> 0 then Inr (''????'', True) else Inr (expr, False))"
| "understanding_loop fp cs (Symbol CONSTANT v # sys) s expr =
     (if v < length cs then understanding_loop fp cs sys (dtostr fp (cs ! v) # s) expr
      else Inl ConstantIndexOutOfRange)"
| "understanding_loop fp cs (Symbol MATHFN v # sys) s expr =
     (case s of
        [] \<Rightarrow> Inl EmptyStackAccess
      | b # s1 \<Rightarrow>
          (case fn_name v of
             Some temp \<Rightarrow> understanding_loop fp cs sys ((temp @ ''('' @ b @ '')'') # s1) expr
           | None \<Rightarrow> Inr (''????'', False)))"
| "understanding_loop fp cs (Symbol OPERATOR v # sys) s expr =
     (case s of
        [] \<Rightarrow> Inl EmptyStackAccess
      | b # s1 \<Rightarrow>
          if v = op_code CHR '';'' then
            understanding_loop fp cs sys s1 (expr @ b @ '';'' @ [newline])
          else if v = op_code CHR ''n'' then
            understanding_loop fp cs sys ((''(-'' @ b @ '')'') # s1) expr
          else
            (case s1 of
               [] \<Rightarrow> Inl EmptyStackAccess
             | a # s2 \<Rightarrow>
                 (case binop_char v of
                    Some c \<Rightarrow> understanding_loop fp cs sys ((''('' @ a @ [c] @ b @ '')'') # s2) expr
                  | None \<Rightarrow> Inr (''????'', False))))"
| "understanding_loop fp cs (Symbol ASSIGN v # sys) s expr =
     understanding_loop fp cs sys s expr"

definition understanding :: "'d numerics \<Rightarrow> 'd Evaluator \<Rightarrow> fault + (string \<times> 'd Evaluator)" where
  "understanding fp ev =
     (case understanding_loop fp (constants ev) (symbols ev) [] [] of
        Inl f \<Rightarrow> Inl f
      | Inr (txt, unfinished) \<Rightarrow>
          Inr (txt, if unfinished then println ''unfinished'' ev else ev))"

definition binop :: "'d numerics \<Rightarrow> nat \<Rightarrow> ('d \<Rightarrow> 'd \<Rightarrow> 'd) option" where
  "binop fp v =
     (if v = op_code CHR ''+'' then Some (fadd fp)
      else if v = op_code CHR ''-'' then Some (fsub fp)
      else if v = op_code CHR ''*'' then Some (fmul fp)
      else if v = op_code CHR ''/'' then Some (fdiv fp)
      else if v = op_code CHR ''^'' then Some (fpow fp)
      else None)"

definition mathfn :: "'d numerics \<Rightarrow> nat \<Rightarrow> ('d \<Rightarrow> 'd) option" where
  "mathfn fp v =
     (if v = COS then Some (fcos fp)
      else if v = EXP then Some (fexp fp)
      else if v = LOG then Some (flog fp)
      else if v = SIN then Some (fsin fp)
      else if v = TAN then Some (ftan fp)
      else None)"

text \<open>Decimal digits of a number, as the stream writes an \<open>unsigned int\<close>.\<close>

function show_dec :: "int \<Rightarrow> string" where
  "show_dec n =
     (if n < 10 then [char_of (48 + n)] else show_dec (n div 10) @ [char_of (48 + n mod 10)])"
  by pat_completeness auto
termination
  by (relation "measure nat") auto

declare show_dec.simps [simp del]

definition show_nat :: "nat \<Rightarrow> string" where
  "show_nat n = show_dec (int n)"

text \<open>
  The loop of \<open>run\<close>: the stack \<open>s\<close> of values and the output so far; the result is the
  returned \<open>bool\<close> and the output.
\<close>

fun run_loop ::
  "'d numerics \<Rightarrow> 'd list \<Rightarrow> Symbol list \<Rightarrow> 'd list \<Rightarrow> 'd out_event list
     \<Rightarrow> fault + (bool \<times> 'd out_event list)"
where
  "run_loop fp cs [] s out =
     (if length s \<noteq> 0 then Inr (False, out @ [Text ''unfinished'']) else Inr (True, out))"
| "run_loop fp cs (Symbol CONSTANT v # sys) s out =
     (if v < length cs then run_loop fp cs sys (cs ! v # s) out
      else Inl ConstantIndexOutOfRange)"
| "run_loop fp cs (Symbol MATHFN v # sys) s out =
     (case s of
        [] \<Rightarrow> Inl EmptyStackAccess
      | b # s1 \<Rightarrow>
          (case mathfn fp v of
             Some f \<Rightarrow> run_loop fp cs sys (f b # s1) out
           | None \<Rightarrow> Inr (False, out @ [Text ''unknown math function''])))"
| "run_loop fp cs (Symbol OPERATOR v # sys) s out =
     (case s of
        [] \<Rightarrow> Inl EmptyStackAccess
      | b # s1 \<Rightarrow>
          if v = op_code CHR '';'' then run_loop fp cs sys s1 (out @ [Evaluation b])
          else if v = op_code CHR ''n'' then run_loop fp cs sys (fneg fp b # s1) out
          else
            (case s1 of
               [] \<Rightarrow> Inl EmptyStackAccess
             | a # s2 \<Rightarrow>
                 (case binop fp v of
                    Some f \<Rightarrow> run_loop fp cs sys (f a b # s2) out
                  | None \<Rightarrow> Inr (False, out @ [Text (''unknown operator '' @ show_nat v)]))))"
| "run_loop fp cs (Symbol ASSIGN v # sys) s out = run_loop fp cs sys s out"

definition run :: "'d numerics \<Rightarrow> 'd Evaluator \<Rightarrow> fault + (bool \<times> 'd Evaluator)" where
  "run fp ev =
     (case run_loop fp (constants ev) (symbols ev) [] (cout ev) of
        Inl f \<Rightarrow> Inl f
      | Inr (ok, out) \<Rightarrow> Inr (ok, ev\<lparr>cout := out\<rparr>))"

text \<open>
  \<open>eval\<close>: parse; on success print the understanding and run. \<open>None\<close> is an exhausted
  fuel (never, by \<open>parse_total\<close> below), \<open>Inl\<close> undefined behaviour of an interpreter.
\<close>

definition eval :: "'d numerics \<Rightarrow> string \<Rightarrow> 'd Evaluator \<Rightarrow> (fault + (bool \<times> 'd Evaluator)) option" where
  "eval fp str ev =
     (case parse fp str ev of
        None \<Rightarrow> None
      | Some (ok, ev1) \<Rightarrow>
          if \<not> ok then Some (Inr (False, ev1))
          else
            (case understanding fp (println ''Understanding:'' ev1) of
               Inl f \<Rightarrow> Some (Inl f)
             | Inr (txt, ev2) \<Rightarrow> Some (run fp (println txt ev2))))"

text \<open>The numeric results a state reports: the \<open>Evaluation\<close> events of its output.\<close>

fun evaluations :: "'d out_event list \<Rightarrow> 'd list" where
  "evaluations [] = []"
| "evaluations (Text m # es) = evaluations es"
| "evaluations (Evaluation x # es) = x # evaluations es"

fun messages :: "'d out_event list \<Rightarrow> string list" where
  "messages [] = []"
| "messages (Text m # es) = m # messages es"
| "messages (Evaluation x # es) = messages es"


subsection \<open>One line on a new evaluator\<close>

text \<open>
  What a caller observes of a line: the program \<open>parse\<close> compiles, and the result of
  \<open>eval\<close> with the text lines and the numeric results it wrote.
\<close>

definition compiled :: "'d numerics \<Rightarrow> string \<Rightarrow> (bool \<times> Symbol list \<times> 'd list) option" where
  "compiled fp str =
     (case parse fp str (Evaluator_new fp) of
        None \<Rightarrow> None
      | Some (ok, ev) \<Rightarrow> Some (ok, symbols ev, constants ev))"

definition session :: "'d numerics \<Rightarrow> string \<Rightarrow> (fault + (bool \<times> string list \<times> 'd list)) option" where
  "session fp str =
     (case eval fp str (Evaluator_new fp) of
        None \<Rightarrow> None
      | Some (Inl f) \<Rightarrow> Some (Inl f)
      | Some (Inr (ok, ev)) \<Rightarrow> Some (Inr (ok, messages (cout ev), evaluations (cout ev))))"

subsection \<open>Exact arithmetic as an instance of the numerics\<close>

text \<open>
  The instance \<open>exact\<close> takes the real numbers for \<open>double\<close>: a literal has its exact
  value, the operations are those of the reals, and a value is written as the stream
  writes a double (\<open>printf\<close>'s \<open>%g\<close> with precision 6). It agrees with IEEE arithmetic
  where every value involved is a double and no operation is exceptional or rounds;
  it has no infinities, no NaN and no negative zero, and \<open>x / 0\<close> is HOL's. It is used
  only for the values of \<open>2^-3^2\<close> and of \<open>2+2;3*3\<close>, where no zero and no such
  operation occurs.
\<close>

definition digit_val :: "char \<Rightarrow> int" where
  "digit_val c =
     (if isdigit c then of_char c - 48
      else if c \<in> set ''abcdef'' then of_char c - 87
      else of_char c - 55)"

definition digits_val :: "int \<Rightarrow> string \<Rightarrow> int" where
  "digits_val b cs = foldl (\<lambda>a c. b * a + digit_val c) 0 cs"

text \<open>The value of an exponent part (mark, optional sign, digits), 0 when there is none.\<close>

definition exponent_val :: "string \<Rightarrow> int" where
  "exponent_val cs =
     (case cs of
        m # c # cs1 \<Rightarrow>
          if c = CHR ''-'' then - digits_val 10 cs1
          else if c = CHR ''+'' then digits_val 10 cs1
          else digits_val 10 (c # cs1)
      | _ \<Rightarrow> 0)"

text \<open>
  The digits of a mantissa (without the point) as a number, the count of the digits
  after the point, and the exponent part that follows.
\<close>

definition mantissa_val :: "int \<Rightarrow> (char \<Rightarrow> bool) \<Rightarrow> string \<Rightarrow> int \<times> nat \<times> string" where
  "mantissa_val b P cs =
     (let ip = takeWhile P cs; r1 = dropWhile P cs
      in case r1 of
           c # r \<Rightarrow>
             if c = CHR ''.''
             then (digits_val b (ip @ takeWhile P r), length (takeWhile P r), dropWhile P r)
             else (digits_val b ip, 0, r1)
         | [] \<Rightarrow> (digits_val b ip, 0, r1))"

text \<open>
  A converted text as base, mantissa and exponent: the value is
  \<open>mantissa * base ^ exponent\<close>, with base 10 or, for a hexadecimal number, 2.
\<close>

definition decode :: "string \<Rightarrow> nat \<times> int \<times> int" where
  "decode txt =
     (let dec = (let (m, k, r) = mantissa_val 10 isdigit txt in (10, m, exponent_val r - int k))
      in case txt of
           c0 # c1 # cs2 \<Rightarrow>
             if c1 = CHR ''x'' \<or> c1 = CHR ''X''
             then (let (m, k, r) = mantissa_val 16 isxdigit cs2
                   in (2, m, exponent_val r - 4 * int k))
             else dec
         | _ \<Rightarrow> dec)"

definition scale :: "nat \<Rightarrow> int \<Rightarrow> int \<Rightarrow> real" where
  "scale b m k =
     (if 0 \<le> k then of_int m * real b ^ nat k else of_int m / real b ^ nat (- k))"

definition exact_strtod :: "string \<Rightarrow> real" where
  "exact_strtod txt = (let (b, m, k) = decode txt in scale b m k)"

text \<open>
  \<open>%g\<close> with precision 6: the decimal exponent \<open>X\<close> of the value rounded to six
  significant digits decides between the fixed notation (\<open>-4 \<le> X < 6\<close>) and the
  scientific one; trailing zeros of the fraction are removed. The search for the
  exponent is bounded by 400 steps, more than the range of a double needs.
\<close>

fun decimal_exponent :: "nat \<Rightarrow> real \<Rightarrow> int \<Rightarrow> real \<times> int" where
  "decimal_exponent 0 x k = (x, k)"
| "decimal_exponent (Suc n) x k =
     (if 10 \<le> x then decimal_exponent n (x / 10) (k + 1)
      else if x < 1 then decimal_exponent n (x * 10) (k - 1)
      else (x, k))"

definition round_half_even :: "real \<Rightarrow> int" where
  "round_half_even r =
     (let f = \<lfloor>r\<rfloor>
      in if r - of_int f < 1 / 2 then f
         else if 1 / 2 < r - of_int f then f + 1
         else if even f then f else f + 1)"

definition strip_zeros :: "string \<Rightarrow> string" where
  "strip_zeros ds = rev (dropWhile (\<lambda>c. c = CHR ''0'') (rev ds))"

definition with_point :: "string \<Rightarrow> string \<Rightarrow> string" where
  "with_point ip fr = (if fr = [] then ip else ip @ ''.'' @ fr)"

text \<open>The text for the six digits \<open>m\<close> (\<open>100000 \<le> m \<le> 1000000\<close>) and the exponent \<open>k\<close>.\<close>

definition render :: "int \<Rightarrow> int \<Rightarrow> string" where
  "render m k =
     (let ds = (if m = 1000000 then ''100000'' else show_dec m);
          X = (if m = 1000000 then k + 1 else k)
      in if - 4 \<le> X \<and> X < 6 then
           (if 0 \<le> X
            then with_point (take (nat X + 1) ds) (strip_zeros (drop (nat X + 1) ds))
            else ''0.'' @ replicate (nat (- X - 1)) CHR ''0'' @ strip_zeros ds)
         else
           with_point (take 1 ds) (strip_zeros (drop 1 ds))
             @ ''e'' @ (if X < 0 then ''-'' else ''+'')
             @ (if \<bar>X\<bar> < 10 then ''0'' else []) @ show_dec \<bar>X\<bar>)"

definition format_g :: "real \<Rightarrow> string" where
  "format_g x =
     (let (y, k) = decimal_exponent 400 x 0
      in render (round_half_even (y * 100000)) k)"

definition exact_stream_out :: "real \<Rightarrow> string" where
  "exact_stream_out x =
     (if x = 0 then ''0'' else if x < 0 then ''-'' @ format_g (- x) else format_g x)"

definition exact_pow :: "real \<Rightarrow> real \<Rightarrow> real" where
  "exact_pow x y = (if y = of_int \<lfloor>y\<rfloor> then x powi \<lfloor>y\<rfloor> else x powr y)"

definition exact :: "real numerics" where
  "exact =
     \<lparr>strtod_value = exact_strtod, stream_out = exact_stream_out,
      fneg = uminus, fadd = (+), fsub = (-), fmul = (*), fdiv = (/), fpow = exact_pow,
      fcos = cos, fexp = exp, flog = ln, fsin = sin, ftan = tan\<rparr>"


subsection \<open>Exact arithmetic with a signed zero\<close>

text \<open>
  A double has two zeros, and the unary minus of the program turns one into the
  other. The instance \<open>signed\<close> adds the negative zero to the exact values: \<open>Fin 0\<close> is
  \<open>+0.0\<close> and \<open>NegZero\<close> is \<open>-0.0\<close>. The sign of a zero result follows IEEE 754 and the C
  library: a sum is \<open>-0\<close> only when both terms are negative zeros, a product or
  quotient that is zero has the sign of its factors, \<open>sin\<close> and \<open>tan\<close> keep the sign of
  a zero, \<open>cos\<close> of either zero is 1, and the stream writes \<open>-0\<close> for the negative
  zero. The two zeros are numerically equal (\<open>to_real\<close>). As in \<open>exact\<close> there is no
  rounding, no infinity and no NaN: the instance agrees with the program where every
  value is a double and no operation is exceptional.
\<close>

datatype szreal = NegZero | Fin real

fun to_real :: "szreal \<Rightarrow> real" where
  "to_real NegZero = 0"
| "to_real (Fin x) = x"

definition negative :: "szreal \<Rightarrow> bool" where
  "negative a = (a = NegZero \<or> to_real a < 0)"

text \<open>The value \<open>r\<close>, as the negative zero when it is zero and the sign is negative.\<close>

definition with_sign :: "bool \<Rightarrow> real \<Rightarrow> szreal" where
  "with_sign neg r = (if r = 0 \<and> neg then NegZero else Fin r)"

definition sz_neg :: "szreal \<Rightarrow> szreal" where
  "sz_neg a = with_sign (\<not> negative a) (- to_real a)"

definition sz_add :: "szreal \<Rightarrow> szreal \<Rightarrow> szreal" where
  "sz_add a b = with_sign (negative a \<and> negative b) (to_real a + to_real b)"

definition sz_sub :: "szreal \<Rightarrow> szreal \<Rightarrow> szreal" where
  "sz_sub a b = sz_add a (sz_neg b)"

definition sz_mul :: "szreal \<Rightarrow> szreal \<Rightarrow> szreal" where
  "sz_mul a b = with_sign (negative a \<noteq> negative b) (to_real a * to_real b)"

definition sz_div :: "szreal \<Rightarrow> szreal \<Rightarrow> szreal" where
  "sz_div a b = with_sign (negative a \<noteq> negative b) (to_real a / to_real b)"

definition sz_pow :: "szreal \<Rightarrow> szreal \<Rightarrow> szreal" where
  "sz_pow a b =
     (if to_real b = 0 then Fin 1
      else if to_real a = 0 then
        (if 0 < to_real b \<and> to_real b = of_int \<lfloor>to_real b\<rfloor> \<and> odd \<lfloor>to_real b\<rfloor>
         then a else Fin 0)
      else Fin (exact_pow (to_real a) (to_real b)))"

definition sz_stream_out :: "szreal \<Rightarrow> string" where
  "sz_stream_out a = (case a of NegZero \<Rightarrow> ''-0'' | Fin x \<Rightarrow> exact_stream_out x)"

definition signed :: "szreal numerics" where
  "signed =
     \<lparr>strtod_value = (\<lambda>txt. Fin (exact_strtod txt)), stream_out = sz_stream_out,
      fneg = sz_neg, fadd = sz_add, fsub = sz_sub, fmul = sz_mul, fdiv = sz_div,
      fpow = sz_pow,
      fcos = (\<lambda>a. Fin (cos (to_real a))),
      fexp = (\<lambda>a. Fin (exp (to_real a))),
      flog = (\<lambda>a. Fin (ln (to_real a))),
      fsin = (\<lambda>a. with_sign (negative a) (sin (to_real a))),
      ftan = (\<lambda>a. with_sign (negative a) (tan (to_real a)))\<rparr>"

subsection \<open>Symbolic values as an instance of the numerics\<close>

text \<open>
  The instance \<open>symbolic\<close> computes nothing: a value is the term of the operations
  that would produce it, and a literal is written back as its text. A result in this
  instance shows how the evaluator has understood a line.
\<close>

datatype expr =
    Lit string
  | Neg expr
  | Add expr expr | Sub expr expr | Mul expr expr | Div expr expr | Pow expr expr
  | Cos expr | Exp expr | Log expr | Sin expr | Tan expr

definition symbolic :: "expr numerics" where
  "symbolic =
     \<lparr>strtod_value = Lit,
      stream_out = (\<lambda>x. case x of Lit txt \<Rightarrow> txt | _ \<Rightarrow> ''?''),
      fneg = Neg, fadd = Add, fsub = Sub, fmul = Mul, fdiv = Div, fpow = Pow,
      fcos = Cos, fexp = Exp, flog = Log, fsin = Sin, ftan = Tan\<rparr>"


subsection \<open>Notions for the statements and proofs\<close>

text \<open>
  A symbol the two interpreters know: a constant, one of the five functions, or one
  of the seven operator characters.
\<close>

definition valid_symbol :: "Symbol \<Rightarrow> bool" where
  "valid_symbol sy =
     (case sy of
        Symbol CONSTANT v \<Rightarrow> True
      | Symbol MATHFN v \<Rightarrow> v \<in> {EXP, COS, LOG, SIN, TAN}
      | Symbol OPERATOR v \<Rightarrow> v \<in> op_code ` set ''+-*/^n;''
      | Symbol ASSIGN v \<Rightarrow> False)"

text \<open>
  \<open>extends ev ev'\<close>: a parsing function that starts in \<open>ev\<close> may leave \<open>ev'\<close>. The line
  and the variables are the same, the cursor has not moved back nor left the line,
  and the symbols, constants and output have only grown, by valid symbols.
  \<open>enough r n ev\<close>: the fuel \<open>n\<close> is enough for a parsing function of rank \<open>r\<close> started
  in \<open>ev\<close>.
\<close>

definition extends :: "'d Evaluator \<Rightarrow> 'd Evaluator \<Rightarrow> bool" where
  "extends ev ev' =
     (line ev' = line ev \<and> variables ev' = variables ev
      \<and> pos ev \<le> pos ev' \<and> pos ev' \<le> length (line ev')
      \<and> (\<exists>sys. symbols ev' = symbols ev @ sys \<and> list_all valid_symbol sys)
      \<and> (\<exists>cs. constants ev' = constants ev @ cs)
      \<and> (\<exists>out. cout ev' = cout ev @ out))"

definition enough :: "nat \<Rightarrow> nat \<Rightarrow> 'd Evaluator \<Rightarrow> bool" where
  "enough r n ev = (pos ev \<le> length (line ev) \<and> 5 * (length (line ev) - pos ev) + r < n)"

definition returns :: "'d Evaluator \<Rightarrow> (bool \<times> 'd Evaluator) option \<Rightarrow> bool" where
  "returns ev r = (\<exists>ok ev'. r = Some (ok, ev') \<and> extends ev ev')"

text \<open>The symbol that closes a statement.\<close>

definition statement_end :: Symbol where
  "statement_end = Symbol OPERATOR (op_code CHR '';'')"

subsection \<open>Expression trees, their postfix code and their printed text\<close>

text \<open>
  The parser builds no tree, but the program it emits for a statement is the postfix
  code of one: a constant by its index, a function applied to an operand, the unary
  minus of an operand, or a binary operator between two. \<open>code\<close> is that postfix
  sequence and \<open>leaves\<close> the indices of its constants, from left to right. \<open>printed\<close>
  is the text that \<open>understanding\<close> builds for the code of a tree (lemma
  \<open>understanding_code\<close> below).
\<close>

datatype tree = TConst nat | TFn nat tree | TNeg tree | TBin char tree tree

fun code :: "tree \<Rightarrow> Symbol list" where
  "code (TConst i) = [Symbol CONSTANT i]"
| "code (TFn f t) = code t @ [Symbol MATHFN f]"
| "code (TNeg t) = code t @ [Symbol OPERATOR (op_code CHR ''n'')]"
| "code (TBin c a b) = code a @ code b @ [Symbol OPERATOR (op_code c)]"

fun leaves :: "tree \<Rightarrow> nat list" where
  "leaves (TConst i) = [i]"
| "leaves (TFn f t) = leaves t"
| "leaves (TNeg t) = leaves t"
| "leaves (TBin c a b) = leaves a @ leaves b"

fun printed :: "'d numerics \<Rightarrow> 'd list \<Rightarrow> tree \<Rightarrow> string" where
  "printed fp cs (TConst i) = dtostr fp (cs ! i)"
| "printed fp cs (TFn f t) =
     (case fn_name f of Some nm \<Rightarrow> nm | None \<Rightarrow> ''????'') @ ''('' @ printed fp cs t @ '')''"
| "printed fp cs (TNeg t) = ''(-'' @ printed fp cs t @ '')''"
| "printed fp cs (TBin c a b) = ''('' @ printed fp cs a @ [c] @ printed fp cs b @ '')''"






text \<open>
  \<open>reread fp x\<close>: the constant that \<open>strtod\<close> reads from the text of \<open>x\<close>. \<open>readable fp x\<close>:
  the text of \<open>x\<close> starts with a digit, holds no NUL, and \<open>strtod\<close> converts exactly that
  text when a closing parenthesis, an operator or a semicolon follows it.
\<close>

definition reread :: "'d numerics \<Rightarrow> 'd \<Rightarrow> 'd" where
  "reread fp x = strtod_value fp (dtostr fp x)"



definition sees :: "'d Evaluator \<Rightarrow> string \<Rightarrow> bool" where
  "sees ev s = (pos ev \<le> length (line ev) \<and> drop (pos ev) (line ev) = s)"

definition emitted :: "'d numerics \<Rightarrow> 'd list \<Rightarrow> tree \<Rightarrow> 'd Evaluator \<Rightarrow> 'd Evaluator" where
  "emitted fp cs t ev =
     ev\<lparr>pos := pos ev + length (printed fp cs t),
        symbols := symbols ev @ code t,
        constants := constants ev @ map (\<lambda>i. reread fp (cs ! i)) (leaves t)\<rparr>"



section \<open>The parser returns, and what it leaves\<close>

lemma cur_pos: "cur ev \<noteq> NUL \<Longrightarrow> pos ev < length (line ev)"
  by (simp add: cur_def char_at_def split: if_splits)

lemma eatspace_eq:
  "\<exists>p. eatspace ev = ev\<lparr>pos := p\<rparr> \<and> pos ev \<le> p
       \<and> (pos ev \<le> length (line ev) \<longrightarrow> p \<le> length (line ev))"
proof (induction ev rule: eatspace.induct)
  case (1 ev)
  show ?case
  proof (cases "isspace (cur ev)")
    case True
    then have "cur ev \<noteq> NUL" by (auto simp: isspace_def NUL_def)
    then have lt: "pos ev < length (line ev)" by (rule cur_pos)
    from 1[OF True] obtain p where
      p: "eatspace (ev\<lparr>pos := pos ev + 1\<rparr>) = ev\<lparr>pos := p\<rparr>" "pos ev + 1 \<le> p"
         "p \<le> length (line ev)"
      using lt by auto
    have "eatspace ev = eatspace (ev\<lparr>pos := pos ev + 1\<rparr>)"
      using True by (subst eatspace.simps) simp
    with p show ?thesis by auto
  next
    case False
    then have "eatspace ev = ev" by (subst eatspace.simps) simp
    then show ?thesis by (intro exI[of _ "pos ev"]) simp
  qed
qed

lemma extends_refl: "pos ev \<le> length (line ev) \<Longrightarrow> extends ev ev"
  by (simp add: extends_def)

lemma extends_trans: "extends a b \<Longrightarrow> extends b c \<Longrightarrow> extends a c"
  by (auto simp: extends_def)

lemma extends_pos: "pos ev \<le> p \<Longrightarrow> p \<le> length (line ev) \<Longrightarrow> extends ev (ev\<lparr>pos := p\<rparr>)"
  by (simp add: extends_def)

lemma extends_eatspace: "pos ev \<le> length (line ev) \<Longrightarrow> extends ev (eatspace ev)"
  using eatspace_eq[of ev] by (auto simp: extends_def)

lemma extends_nextch: "cur ev \<noteq> NUL \<Longrightarrow> extends ev (nextch ev)"
  using eatspace_eq[of "ev\<lparr>pos := pos ev + 1\<rparr>"] cur_pos[of ev]
  by (auto simp: extends_def nextch_def)

lemma pos_nextch: "pos ev < pos (nextch ev)"
  using eatspace_eq[of "ev\<lparr>pos := pos ev + 1\<rparr>"] by (auto simp: nextch_def)

lemma extends_push_symbol:
  "valid_symbol sy \<Longrightarrow> pos ev \<le> length (line ev) \<Longrightarrow> extends ev (push_symbol sy ev)"
  by (simp add: extends_def push_symbol_def)

lemma extends_push_constant:
  "pos ev \<le> length (line ev) \<Longrightarrow> extends ev (push_constant x ev)"
  by (simp add: extends_def push_constant_def)

lemma extends_println:
  "pos ev \<le> length (line ev) \<Longrightarrow> extends ev (println m ev)"
  by (simp add: extends_def println_def)

lemma extends_bound: "extends ev ev' \<Longrightarrow> pos ev' \<le> length (line ev')"
  by (auto simp: extends_def)

lemma get_name_loop_eq:
  "pos ev < length (line ev) \<Longrightarrow>
   \<exists>nm' p. get_name_loop nm ev = (nm', ev\<lparr>pos := p\<rparr>) \<and> pos ev < p \<and> p \<le> length (line ev)"
proof (induction nm ev rule: get_name_loop.induct)
  case (1 nm ev)
  let ?ev1 = "ev\<lparr>pos := pos ev + 1\<rparr>"
  show ?case
  proof (cases "isname (cur ?ev1)")
    case True
    then have "cur ?ev1 \<noteq> NUL"
      by (auto simp: isname_def isalnum_def isalpha_def isdigit_def NUL_def)
    then have lt: "pos ?ev1 < length (line ?ev1)" by (rule cur_pos)
    from 1(1)[OF refl refl True lt] obtain nm' p where
      "get_name_loop (nm @ [cur ev]) ?ev1 = (nm', ?ev1\<lparr>pos := p\<rparr>)" "pos ?ev1 < p"
      "p \<le> length (line ?ev1)" by blast
    moreover have "get_name_loop nm ev = get_name_loop (nm @ [cur ev]) ?ev1"
      using True by (subst get_name_loop.simps) (simp add: Let_def)
    ultimately show ?thesis by auto
  next
    case False
    then have "get_name_loop nm ev = (nm @ [cur ev], ?ev1)"
      by (subst get_name_loop.simps) (simp add: Let_def)
    with 1(2) show ?thesis by auto
  qed
qed

lemma get_name_extends:
  "cur ev \<noteq> NUL \<Longrightarrow> get_name ev = (nm, ev1) \<Longrightarrow> extends ev ev1 \<and> pos ev < pos ev1"
  using get_name_loop_eq[OF cur_pos, of ev "[]"] by (auto simp: get_name_def extends_def)

lemma rest_length: "length (rest ev) \<le> length (line ev) - pos ev"
  unfolding rest_def by (rule order_trans[OF length_takeWhile_le]) simp

lemma get_double_extends:
  "pos ev \<le> length (line ev) \<Longrightarrow> get_double fp ev = (x, ev1) \<Longrightarrow> extends ev ev1"
  using rest_length[of ev] by (auto simp: get_double_def Let_def extends_def)


lemma enough_le: "enough r n ev \<Longrightarrow> pos ev \<le> length (line ev)"
  by (simp add: enough_def)

lemma enough_same:
  "enough r (Suc n) ev \<Longrightarrow> r' < r \<Longrightarrow> enough r' n ev"
  by (auto simp: enough_def)

lemma enough_later:
  "enough r (Suc n) ev \<Longrightarrow> 0 < r \<Longrightarrow> extends ev ev' \<Longrightarrow> enough 0 n ev'"
  by (auto simp: enough_def extends_def)

lemma enough_next:
  "enough r (Suc n) ev \<Longrightarrow> extends ev ev' \<Longrightarrow> pos ev < pos ev' \<Longrightarrow> enough 4 n ev'"
  by (auto simp: enough_def extends_def)

lemma enough_weaken: "enough r n ev \<Longrightarrow> r' \<le> r \<Longrightarrow> enough r' n ev"
  by (auto simp: enough_def)

lemma returnsI: "r = Some (ok, ev') \<Longrightarrow> extends ev ev' \<Longrightarrow> returns ev r"
  by (auto simp: returns_def)

lemma returns_via: "extends ev ev1 \<Longrightarrow> returns ev1 r \<Longrightarrow> returns ev r"
  by (auto simp: returns_def intro: extends_trans)

lemma valid_ops [simp]:
  "valid_symbol (Symbol OPERATOR (op_code CHR ''+''))"
  "valid_symbol (Symbol OPERATOR (op_code CHR ''-''))"
  "valid_symbol (Symbol OPERATOR (op_code CHR ''*''))"
  "valid_symbol (Symbol OPERATOR (op_code CHR ''/''))"
  "valid_symbol (Symbol OPERATOR (op_code CHR ''^''))"
  "valid_symbol (Symbol OPERATOR (op_code CHR ''n''))"
  "valid_symbol (Symbol OPERATOR (op_code CHR '';''))"
  "valid_symbol (Symbol CONSTANT v)"
  by (simp_all add: valid_symbol_def)

lemma valid_fn: "fn_code nm = Some f \<Longrightarrow> valid_symbol (Symbol MATHFN f)"
  by (auto simp: fn_code_def valid_symbol_def split: if_splits)


lemma seq_returns:
  assumes "returns ev r1"
    and "\<And>ev1. r1 = Some (True, ev1) \<Longrightarrow> extends ev ev1 \<Longrightarrow> returns ev1 (k ev1)"
  shows "returns ev (case r1 of None \<Rightarrow> None
                     | Some (ok, ev1) \<Rightarrow> if \<not> ok then Some (False, ev1) else k ev1)"
proof -
  from assms(1) obtain ok ev1 where r1: "r1 = Some (ok, ev1)" and x: "extends ev ev1"
    by (auto simp: returns_def)
  show ?thesis
  proof (cases ok)
    case True
    with assms(2)[of ev1] r1 x have "returns ev1 (k ev1)" by simp
    with x have "returns ev (k ev1)" by (rule returns_via)
    with r1 True show ?thesis by simp
  next
    case False
    with r1 x show ?thesis by (auto simp: returns_def)
  qed
qed


lemma enough_ext: "enough r n ev \<Longrightarrow> extends ev ev' \<Longrightarrow> r' \<le> r \<Longrightarrow> enough r' n ev'"
  by (auto simp: enough_def extends_def)

lemma enough_push_symbol [simp]: "enough r n (push_symbol sy ev) = enough r n ev"
  by (simp add: enough_def push_symbol_def)

lemma returns_push:
  assumes "returns (push_symbol sy ev) r"
    and "valid_symbol sy" "pos ev \<le> length (line ev)"
  shows "returns ev r"
  using extends_push_symbol[OF assms(2,3)] assms(1) by (rule returns_via)

lemma returns_Some: "extends ev ev' \<Longrightarrow> returns ev (Some (ok, ev'))"
  by (simp add: returns_def)

lemma levels_return:
  "enough 4 n ev \<Longrightarrow> returns ev (level1 fp n ev)"
  "enough 0 n ev \<Longrightarrow> returns ev (level1_loop fp n ev)"
  "enough 3 n ev \<Longrightarrow> returns ev (level2 fp n ev)"
  "enough 0 n ev \<Longrightarrow> returns ev (level2_loop fp n ev)"
  "enough 2 n ev \<Longrightarrow> returns ev (level3 fp n ev)"
  "enough 1 n ev \<Longrightarrow> returns ev (level4 fp n ev)"
  "enough 0 n ev \<Longrightarrow> returns ev (level4_loop fp n ev)"
  "enough 0 n ev \<Longrightarrow> returns ev (level_top fp n ev)"
proof (induction fp n ev and fp n ev and fp n ev and fp n ev and fp n ev and fp n ev
         and fp n ev and fp n ev
       rule: level1_level1_loop_level2_level2_loop_level3_level4_level4_loop_level_top.induct)
  case (1 fp ev)
  then show ?case by (simp add: enough_def)
next
  case (2 fp n ev)
  note e = 2(3)
  show ?case unfolding level1.simps
  proof (rule seq_returns)
    show "returns ev (level2 fp n ev)"
      by (rule 2(1)) (rule enough_same[OF e], simp)
  next
    fix ev1 assume r: "level2 fp n ev = Some (True, ev1)" and x: "extends ev ev1"
    show "returns ev1 (level1_loop fp n ev1)"
      by (rule 2(2)[OF r refl]) (simp, rule enough_later[OF e _ x], simp)
  qed
next
  case (3 fp ev)
  then show ?case by (simp add: enough_def)
next
  case (4 fp n ev)
  note e = 4(3)
  show ?case
  proof (cases "cur ev = CHR ''+'' \<or> cur ev = CHR ''-''")
    case True
    then have nz: "cur ev \<noteq> NUL" by (auto simp: NUL_def)
    have x0: "extends ev (nextch ev)" using nz by (rule extends_nextch)
    have e1: "enough 4 n (nextch ev)" using e x0 pos_nextch by (rule enough_next)
    have "returns (nextch ev)
            (case level2 fp n (nextch ev) of None \<Rightarrow> None
             | Some (ok, ev1) \<Rightarrow> if \<not> ok then Some (False, ev1)
                 else level1_loop fp n
                    (if cur ev = CHR ''+''
                     then push_symbol (Symbol OPERATOR (op_code CHR ''+'')) ev1
                     else push_symbol (Symbol OPERATOR (op_code CHR ''-'')) ev1))"
    proof (rule seq_returns)
      show "returns (nextch ev) (level2 fp n (nextch ev))"
        by (rule 4(1)[OF True]) (rule enough_ext[OF e1 extends_refl], use e1 in \<open>auto simp: enough_def\<close>)
    next
      fix ev1 assume r: "level2 fp n (nextch ev) = Some (True, ev1)"
        and x: "extends (nextch ev) ev1"
      have e2: "enough 0 n ev1" using e1 x by (rule enough_ext) simp
      show "returns ev1 (level1_loop fp n
                    (if cur ev = CHR ''+''
                     then push_symbol (Symbol OPERATOR (op_code CHR ''+'')) ev1
                     else push_symbol (Symbol OPERATOR (op_code CHR ''-'')) ev1))"
      proof (cases "cur ev = CHR ''+''")
        case c: True
        have "returns (push_symbol (Symbol OPERATOR (op_code CHR ''+'')) ev1)
                (level1_loop fp n (push_symbol (Symbol OPERATOR (op_code CHR ''+'')) ev1))"
          using 4(2)[OF True r refl] e2 c by simp
        then have "returns ev1
                (level1_loop fp n (push_symbol (Symbol OPERATOR (op_code CHR ''+'')) ev1))"
          by (rule returns_push) (simp_all add: extends_bound[OF x])
        with c show ?thesis by simp
      next
        case c: False
        have "returns (push_symbol (Symbol OPERATOR (op_code CHR ''-'')) ev1)
                (level1_loop fp n (push_symbol (Symbol OPERATOR (op_code CHR ''-'')) ev1))"
          using 4(2)[OF True r refl] e2 c by simp
        then have "returns ev1
                (level1_loop fp n (push_symbol (Symbol OPERATOR (op_code CHR ''-'')) ev1))"
          by (rule returns_push) (simp_all add: extends_bound[OF x])
        with c show ?thesis by simp
      qed
    qed
    with x0 have "returns ev
            (case level2 fp n (nextch ev) of None \<Rightarrow> None
             | Some (ok, ev1) \<Rightarrow> if \<not> ok then Some (False, ev1)
                 else level1_loop fp n
                    (if cur ev = CHR ''+''
                     then push_symbol (Symbol OPERATOR (op_code CHR ''+'')) ev1
                     else push_symbol (Symbol OPERATOR (op_code CHR ''-'')) ev1))"
      by (rule returns_via)
    with True show ?thesis by simp
  next
    case False
    then show ?thesis using enough_le[OF e] by (simp add: returns_Some extends_refl)
  qed
next
  case (5 fp ev)
  then show ?case by (simp add: enough_def)
next
  case (6 fp n ev)
  note e = 6(3)
  show ?case unfolding level2.simps
  proof (rule seq_returns)
    show "returns ev (level3 fp n ev)"
      by (rule 6(1)) (rule enough_same[OF e], simp)
  next
    fix ev1 assume r: "level3 fp n ev = Some (True, ev1)" and x: "extends ev ev1"
    show "returns ev1 (level2_loop fp n ev1)"
      by (rule 6(2)[OF r refl]) (simp, rule enough_later[OF e _ x], simp)
  qed
next
  case (7 fp ev)
  then show ?case by (simp add: enough_def)
next
  case (8 fp n ev)
  note e = 8(3)
  show ?case
  proof (cases "cur ev = CHR ''*'' \<or> cur ev = CHR ''/''")
    case True
    then have nz: "cur ev \<noteq> NUL" by (auto simp: NUL_def)
    have x0: "extends ev (nextch ev)" using nz by (rule extends_nextch)
    have e1: "enough 4 n (nextch ev)" using e x0 pos_nextch by (rule enough_next)
    have "returns (nextch ev)
            (case level3 fp n (nextch ev) of None \<Rightarrow> None
             | Some (ok, ev1) \<Rightarrow> if \<not> ok then Some (False, ev1)
                 else level2_loop fp n
                    (if cur ev = CHR ''*''
                     then push_symbol (Symbol OPERATOR (op_code CHR ''*'')) ev1
                     else push_symbol (Symbol OPERATOR (op_code CHR ''/'')) ev1))"
    proof (rule seq_returns)
      show "returns (nextch ev) (level3 fp n (nextch ev))"
        by (rule 8(1)[OF True]) (rule enough_ext[OF e1 extends_refl], use e1 in \<open>auto simp: enough_def\<close>)
    next
      fix ev1 assume r: "level3 fp n (nextch ev) = Some (True, ev1)"
        and x: "extends (nextch ev) ev1"
      have e2: "enough 0 n ev1" using e1 x by (rule enough_ext) simp
      show "returns ev1 (level2_loop fp n
                    (if cur ev = CHR ''*''
                     then push_symbol (Symbol OPERATOR (op_code CHR ''*'')) ev1
                     else push_symbol (Symbol OPERATOR (op_code CHR ''/'')) ev1))"
      proof (cases "cur ev = CHR ''*''")
        case c: True
        have "returns (push_symbol (Symbol OPERATOR (op_code CHR ''*'')) ev1)
                (level2_loop fp n (push_symbol (Symbol OPERATOR (op_code CHR ''*'')) ev1))"
          using 8(2)[OF True r refl] e2 c by simp
        then have "returns ev1
                (level2_loop fp n (push_symbol (Symbol OPERATOR (op_code CHR ''*'')) ev1))"
          by (rule returns_push) (simp_all add: extends_bound[OF x])
        with c show ?thesis by simp
      next
        case c: False
        have "returns (push_symbol (Symbol OPERATOR (op_code CHR ''/'')) ev1)
                (level2_loop fp n (push_symbol (Symbol OPERATOR (op_code CHR ''/'')) ev1))"
          using 8(2)[OF True r refl] e2 c by simp
        then have "returns ev1
                (level2_loop fp n (push_symbol (Symbol OPERATOR (op_code CHR ''/'')) ev1))"
          by (rule returns_push) (simp_all add: extends_bound[OF x])
        with c show ?thesis by simp
      qed
    qed
    with x0 have "returns ev
            (case level3 fp n (nextch ev) of None \<Rightarrow> None
             | Some (ok, ev1) \<Rightarrow> if \<not> ok then Some (False, ev1)
                 else level2_loop fp n
                    (if cur ev = CHR ''*''
                     then push_symbol (Symbol OPERATOR (op_code CHR ''*'')) ev1
                     else push_symbol (Symbol OPERATOR (op_code CHR ''/'')) ev1))"
      by (rule returns_via)
    with True show ?thesis by simp
  next
    case False
    then show ?thesis using enough_le[OF e] by (simp add: returns_Some extends_refl)
  qed
next
  case (9 fp ev)
  then show ?case by (simp add: enough_def)
next
  case (10 fp n ev)
  note e = 10(3)
  show ?case
  proof (cases "cur ev = CHR ''-''")
    case True
    then have nz: "cur ev \<noteq> NUL" by (auto simp: NUL_def)
    have x0: "extends ev (nextch ev)" using nz by (rule extends_nextch)
    have e1: "enough 4 n (nextch ev)" using e x0 pos_nextch by (rule enough_next)
    have "returns (nextch ev)
            (case level3 fp n (nextch ev) of None \<Rightarrow> None
             | Some (ok, ev1) \<Rightarrow> if \<not> ok then Some (False, ev1)
                 else Some (True, push_symbol (Symbol OPERATOR (op_code CHR ''n'')) ev1))"
    proof (rule seq_returns)
      show "returns (nextch ev) (level3 fp n (nextch ev))"
        by (rule 10(1)[OF True]) (rule enough_ext[OF e1 extends_refl], use e1 in \<open>auto simp: enough_def\<close>)
    next
      fix ev1 assume x: "extends (nextch ev) ev1"
      show "returns ev1 (Some (True, push_symbol (Symbol OPERATOR (op_code CHR ''n'')) ev1))"
        using extends_bound[OF x] by (simp add: returns_Some extends_push_symbol)
    qed
    with x0 have "returns ev
            (case level3 fp n (nextch ev) of None \<Rightarrow> None
             | Some (ok, ev1) \<Rightarrow> if \<not> ok then Some (False, ev1)
                 else Some (True, push_symbol (Symbol OPERATOR (op_code CHR ''n'')) ev1))"
      by (rule returns_via)
    with True show ?thesis by simp
  next
    case False
    have "returns ev (level4 fp n ev)"
      by (rule 10(2)[OF False]) (rule enough_same[OF e], simp)
    then show ?thesis using False by (auto simp: returns_def)
  qed
next
  case (11 fp ev)
  then show ?case by (simp add: enough_def)
next
  case (12 fp n ev)
  note e = 12(3)
  show ?case unfolding level4.simps
  proof (rule seq_returns)
    show "returns ev (level_top fp n ev)"
      by (rule 12(1)) (rule enough_same[OF e], simp)
  next
    fix ev1 assume r: "level_top fp n ev = Some (True, ev1)" and x: "extends ev ev1"
    show "returns ev1 (level4_loop fp n ev1)"
      by (rule 12(2)[OF r refl]) (simp, rule enough_later[OF e _ x], simp)
  qed
next
  case (13 fp ev)
  then show ?case by (simp add: enough_def)
next
  case (14 fp n ev)
  note e = 14(3)
  show ?case
  proof (cases "cur ev = CHR ''^''")
    case True
    then have nz: "cur ev \<noteq> NUL" by (auto simp: NUL_def)
    have x0: "extends ev (nextch ev)" using nz by (rule extends_nextch)
    have e1: "enough 4 n (nextch ev)" using e x0 pos_nextch by (rule enough_next)
    have "returns (nextch ev)
            (case level3 fp n (nextch ev) of None \<Rightarrow> None
             | Some (ok, ev1) \<Rightarrow> if \<not> ok then Some (False, ev1)
                 else level4_loop fp n (push_symbol (Symbol OPERATOR (op_code CHR ''^'')) ev1))"
    proof (rule seq_returns)
      show "returns (nextch ev) (level3 fp n (nextch ev))"
        by (rule 14(1)[OF True]) (rule enough_ext[OF e1 extends_refl], use e1 in \<open>auto simp: enough_def\<close>)
    next
      fix ev1 assume r: "level3 fp n (nextch ev) = Some (True, ev1)"
        and x: "extends (nextch ev) ev1"
      have e2: "enough 0 n ev1" using e1 x by (rule enough_ext) simp
      show "returns ev1 (level4_loop fp n (push_symbol (Symbol OPERATOR (op_code CHR ''^'')) ev1))"
      proof -
        have "returns (push_symbol (Symbol OPERATOR (op_code CHR ''^'')) ev1)
                (level4_loop fp n (push_symbol (Symbol OPERATOR (op_code CHR ''^'')) ev1))"
          using 14(2)[OF True r refl] e2 by simp
        then show ?thesis
          by (rule returns_push) (simp_all add: extends_bound[OF x])
      qed
    qed
    with x0 have "returns ev
            (case level3 fp n (nextch ev) of None \<Rightarrow> None
             | Some (ok, ev1) \<Rightarrow> if \<not> ok then Some (False, ev1)
                 else level4_loop fp n (push_symbol (Symbol OPERATOR (op_code CHR ''^'')) ev1))"
      by (rule returns_via)
    with True show ?thesis by simp
  next
    case False
    then show ?thesis using enough_le[OF e] by (simp add: returns_Some extends_refl)
  qed
next
  case (15 fp ev)
  then show ?case by (simp add: enough_def)
next
  case (16 fp n ev)
  note e = 16(3)
  note le = enough_le[OF e]
  consider (digit) "isdigit (cur ev)"
    | (paren) "\<not> isdigit (cur ev)" "cur ev = CHR ''(''"
    | (name) "\<not> isdigit (cur ev)" "cur ev \<noteq> CHR ''(''" "isalpha (cur ev) \<or> cur ev = CHR ''_''"
    | (other) "\<not> isdigit (cur ev)" "cur ev \<noteq> CHR ''(''" "\<not> (isalpha (cur ev) \<or> cur ev = CHR ''_'')"
    by blast
  then show ?case
  proof cases
    case digit
    obtain x ev1 where gd: "get_double fp ev = (x, ev1)" by force
    have x1: "extends ev ev1" using le gd by (rule get_double_extends)
    have x2: "extends ev1 (push_constant x ev1)"
      using extends_bound[OF x1] by (rule extends_push_constant)
    have x3: "extends (push_constant x ev1) (eatspace (push_constant x ev1))"
      using extends_bound[OF x2] by (rule extends_eatspace)
    have x4: "extends (eatspace (push_constant x ev1))
                (push_symbol (Symbol CONSTANT (length (constants (eatspace (push_constant x ev1))) - 1))
                   (eatspace (push_constant x ev1)))"
      using extends_bound[OF x3] by (simp add: extends_push_symbol)
    from x1 x2 x3 x4 show ?thesis using digit gd
      by (auto simp: Let_def intro!: returns_Some intro: extends_trans)
  next
    case paren
    then have nz: "cur ev \<noteq> NUL" by (auto simp: NUL_def)
    have x0: "extends ev (nextch ev)" using nz by (rule extends_nextch)
    have e1: "enough 4 n (nextch ev)" using e x0 pos_nextch by (rule enough_next)
    have "returns (nextch ev)
            (case level1 fp n (nextch ev) of None \<Rightarrow> None
             | Some (ok, ev1) \<Rightarrow> if \<not> ok then Some (False, ev1)
                 else if cur ev1 \<noteq> CHR '')''
                 then Some (False, println (error ev1 (''expected ')'' @ [CHR 0x27])) ev1)
                 else Some (True, nextch ev1))"
    proof (rule seq_returns)
      show "returns (nextch ev) (level1 fp n (nextch ev))"
        by (rule 16(1)[OF paren]) (rule e1)
    next
      fix ev1 assume x: "extends (nextch ev) ev1"
      show "returns ev1 (if cur ev1 \<noteq> CHR '')''
                 then Some (False, println (error ev1 (''expected ')'' @ [CHR 0x27])) ev1)
                 else Some (True, nextch ev1))"
        using extends_bound[OF x]
        by (auto simp: NUL_def intro!: returns_Some extends_println extends_nextch)
    qed
    with x0 have "returns ev
            (case level1 fp n (nextch ev) of None \<Rightarrow> None
             | Some (ok, ev1) \<Rightarrow> if \<not> ok then Some (False, ev1)
                 else if cur ev1 \<noteq> CHR '')''
                 then Some (False, println (error ev1 (''expected ')'' @ [CHR 0x27])) ev1)
                 else Some (True, nextch ev1))"
      by (rule returns_via)
    with paren show ?thesis by simp
  next
    case name
    then have nz: "cur ev \<noteq> NUL" by (auto simp: NUL_def isalpha_def)
    obtain nm ev1 where gn: "get_name ev = (nm, ev1)" by force
    from get_name_extends[OF nz gn] have x1: "extends ev ev1" and lt: "pos ev < pos ev1"
      by simp_all
    let ?ev2 = "eatspace ev1"
    have x2: "extends ev1 ?ev2" using extends_bound[OF x1] by (rule extends_eatspace)
    have x12: "extends ev ?ev2" using x1 x2 by (rule extends_trans)
    have lt2: "pos ev < pos ?ev2" using lt x2 by (auto simp: extends_def)
    have e2: "enough 4 n ?ev2" using e x12 lt2 by (rule enough_next)
    show ?thesis
    proof (cases "fn_code nm")
      case (Some f)
      have "returns ?ev2
              (case level3 fp n ?ev2 of None \<Rightarrow> None
               | Some (ok, ev3) \<Rightarrow> if \<not> ok then Some (False, ev3)
                   else Some (True, push_symbol (Symbol MATHFN f) ev3))"
      proof (rule seq_returns)
        show "returns ?ev2 (level3 fp n ?ev2)"
          by (rule 16(2)[OF name refl gn[symmetric] refl Some])
             (rule enough_ext[OF e2 extends_refl], use e2 in \<open>auto simp: enough_def\<close>)
      next
        fix ev3 assume x: "extends ?ev2 ev3"
        show "returns ev3 (Some (True, push_symbol (Symbol MATHFN f) ev3))"
          using extends_bound[OF x] valid_fn[OF Some]
          by (simp add: returns_Some extends_push_symbol)
      qed
      with x12 have "returns ev
              (case level3 fp n ?ev2 of None \<Rightarrow> None
               | Some (ok, ev3) \<Rightarrow> if \<not> ok then Some (False, ev3)
                   else Some (True, push_symbol (Symbol MATHFN f) ev3))"
        by (rule returns_via)
      with name gn Some show ?thesis by (simp add: Let_def)
    next
      case None
      have b2: "pos ?ev2 \<le> length (line ?ev2)" by (rule extends_bound[OF x12])
      let ?i = "find_variable ?ev2 nm"
      let ?ev3 = "push_constant (var_value (variables ?ev2 ! ?i)) ?ev2"
      have x3: "extends ?ev2 ?ev3" using b2 by (rule extends_push_constant)
      have x4: "extends ?ev3 (push_symbol (Symbol CONSTANT (length (constants ?ev3) - 1)) ?ev3)"
        using extends_bound[OF x3] by (simp add: extends_push_symbol)
      have x5: "extends ?ev2 (println (error ?ev2 (''unknown name: '' @ nm)) ?ev2)"
        using b2 by (rule extends_println)
      from x12 x3 x4 x5 show ?thesis using name gn None
        by (auto simp: Let_def intro!: returns_Some intro: extends_trans)
    qed
  next
    case other
    then show ?thesis using le
      by (auto intro!: returns_Some extends_println)
  qed
qed

lemma cur_push_symbol [simp]: "cur (push_symbol sy ev) = cur ev"
  by (simp add: cur_def push_symbol_def)

lemma parse_loop_returns:
  "pos ev \<le> length (line ev) \<Longrightarrow>
   (if cur ev = NUL then 0 else 5 * (length (line ev) - pos ev) + 5) < n \<Longrightarrow>
   returns ev (parse_loop fp n ev)"
proof (induction fp n ev rule: parse_loop.induct)
  case (1 fp ev)
  then show ?case by (simp split: if_splits)
next
  case (2 fp n ev)
  note le = 2(2) and fuel = 2(3)
  show ?case
  proof (cases "cur ev = NUL")
    case True
    then show ?thesis using le by (simp add: returns_Some extends_refl)
  next
    case nz: False
    have e: "enough 4 n ev" using le fuel nz by (simp add: enough_def)
    let ?semi = "Symbol OPERATOR (op_code CHR '';'')"
    let ?k = "\<lambda>ev1. if cur ev1 \<noteq> CHR '';'' \<and> cur ev1 \<noteq> NUL
             then Some (False, println (error ev1 (''expected ';'' @ [CHR 0x27] @ '' or end of input'')) ev1)
             else parse_loop fp n (if cur (push_symbol ?semi ev1) = CHR '';''
                                   then nextch (push_symbol ?semi ev1) else push_symbol ?semi ev1)"
    have "returns ev (case level1 fp n ev of None \<Rightarrow> None
            | Some (ok, ev1) \<Rightarrow> if \<not> ok then Some (False, ev1) else ?k ev1)"
    proof (rule seq_returns)
      show "returns ev (level1 fp n ev)" using e by (rule levels_return)
    next
      fix ev1 assume r: "level1 fp n ev = Some (True, ev1)" and x: "extends ev ev1"
      note b1 = extends_bound[OF x]
      let ?ev2 = "push_symbol ?semi ev1"
      have x2: "extends ev1 ?ev2" using b1 by (simp add: extends_push_symbol)
      show "returns ev1 (?k ev1)"
      proof (cases "cur ev1 \<noteq> CHR '';'' \<and> cur ev1 \<noteq> NUL")
        case True
        then show ?thesis using b1 by (simp add: returns_Some extends_println)
      next
        case stop: False
        let ?ev3 = "if cur ?ev2 = CHR '';'' then nextch ?ev2 else ?ev2"
        have x3: "extends ?ev2 ?ev3"
          using extends_bound[OF x2] by (auto simp: NUL_def intro: extends_nextch extends_refl)
        have f3: "(if cur ?ev3 = NUL then 0 else 5 * (length (line ?ev3) - pos ?ev3) + 5) < n"
        proof (cases "cur ev1 = CHR '';''")
          case True
          moreover have "pos ?ev2 = pos ev1" by (simp add: push_symbol_def)
          ultimately have "pos ev1 < pos ?ev3" using pos_nextch[of ?ev2] by simp
          then show ?thesis using fuel nz x x3 x2 le
            by (auto simp: extends_def split: if_splits)
        next
          case False
          with stop have "cur ev1 = NUL" by simp
          then show ?thesis using fuel nz by (simp add: NUL_def)
        qed
        have "returns ?ev3 (parse_loop fp n ?ev3)"
          using 2(1)[OF nz r refl _ _ refl extends_bound[OF x3] f3] stop by simp
        then have "returns ev1 (parse_loop fp n ?ev3)"
          using extends_trans[OF x2 x3] by (rule returns_via[rotated])
        then show ?thesis using stop by auto
      qed
    qed
    then show ?thesis unfolding parse_loop.simps Let_def using nz by simp
  qed
qed

lemma parse_returns:
  "\<exists>ok ev' sys. parse fp str ev = Some (ok, ev') \<and> line ev' = str
      \<and> symbols ev' = symbols ev @ sys \<and> list_all valid_symbol sys"
proof -
  let ?ev0 = "ev\<lparr>line := str, pos := 0\<rparr>"
  have x0: "extends ?ev0 (eatspace ?ev0)" by (rule extends_eatspace) simp
  have "returns (eatspace ?ev0) (parse_loop fp (5 * length str + 7) (eatspace ?ev0))"
    using extends_bound[OF x0] x0 by (intro parse_loop_returns) (auto simp: extends_def)
  with x0 have "returns ?ev0 (parse fp str ev)"
    unfolding parse_def by (rule returns_via)
  then show ?thesis by (auto simp: returns_def extends_def)
qed

text \<open>
  C8. Whatever the line and the state it starts in, \<open>parse\<close> returns, and every symbol
  it has appended is valid: a \<open>CONSTANT\<close>, a \<open>MATHFN\<close> with one of the five function
  ids, or an \<open>OPERATOR\<close> with one of the seven characters; none has the tag \<open>ASSIGN\<close>.
\<close>

theorem parser_emits_valid_symbols:
  "\<exists>ok ev' sys. parse fp str ev = Some (ok, ev') \<and> symbols ev' = symbols ev @ sys
      \<and> list_all valid_symbol sys \<and> list_all (\<lambda>sy. sym_type sy \<noteq> ASSIGN) sys"
proof -
  from parse_returns[of fp str ev] obtain ok ev' sys where
    p: "parse fp str ev = Some (ok, ev')" "symbols ev' = symbols ev @ sys"
       "list_all valid_symbol sys" by blast
  have "valid_symbol sy \<Longrightarrow> sym_type sy \<noteq> ASSIGN" for sy
    by (cases sy) (auto simp: valid_symbol_def split: SymbolType.splits)
  with p(3) have "list_all (\<lambda>sy. sym_type sy \<noteq> ASSIGN) sys"
    by (auto simp: list_all_iff)
  with p show ?thesis by blast
qed

section \<open>Evaluating lines\<close>

lemmas interp_simps = session_def compiled_def eval_def understanding_def run_def println_def
  Evaluator_new_def dtostr_def op_code_def fn_name_def binop_char_def binop_def mathfn_def
  COS_def EXP_def LOG_def SIN_def TAN_def

subsection \<open>Values of the exact instance\<close>

lemma decimal_exponent_numeral:
  "decimal_exponent (numeral v) x k =
     (if 10 \<le> x then decimal_exponent (pred_numeral v) (x / 10) (k + 1)
      else if x < 1 then decimal_exponent (pred_numeral v) (x * 10) (k - 1)
      else (x, k))"
  by (simp add: numeral_eq_Suc)

lemma decode_0: "decode ''0'' = (10, 0, 0)" by code_simp
lemma decode_2: "decode ''2'' = (10, 2, 0)" by code_simp
lemma decode_3: "decode ''3'' = (10, 3, 0)" by code_simp
lemma render_2: "render 200000 0 = ''2''" by code_simp
lemma render_3: "render 300000 0 = ''3''" by code_simp

lemma exact_2: "strtod_value exact ''2'' = 2"
  by (simp add: exact_def exact_strtod_def decode_2 scale_def)

lemma exact_3: "strtod_value exact ''3'' = 3"
  by (simp add: exact_def exact_strtod_def decode_3 scale_def)

lemma exact_out_2: "dtostr exact 2 = ''2''"
  by (simp add: dtostr_def exact_def exact_stream_out_def format_g_def
        decimal_exponent_numeral round_half_even_def render_2)

lemma exact_out_3: "dtostr exact 3 = ''3''"
  by (simp add: dtostr_def exact_def exact_stream_out_def format_g_def
        decimal_exponent_numeral round_half_even_def render_3)

lemma exact_ops:
  "fneg exact = uminus" "fadd exact = (+)" "fsub exact = (-)" "fmul exact = (*)"
  "fdiv exact = (/)" "fpow exact = exact_pow" "fcos exact = cos" "fsin exact = sin"
  by (simp_all add: exact_def)

subsection \<open>Values of the instance with a signed zero\<close>

lemma signed_0: "strtod_value signed ''0'' = Fin 0"
  by (simp add: signed_def exact_strtod_def decode_0 scale_def)

lemma signed_out_0: "dtostr signed (Fin 0) = ''0''"
  by (simp add: dtostr_def signed_def sz_stream_out_def exact_stream_out_def)

lemma signed_neg_0: "fneg signed (Fin 0) = NegZero"
  by (simp add: signed_def sz_neg_def with_sign_def negative_def)

lemma signed_sin_neg_0: "fsin signed NegZero = NegZero"
  by (simp add: signed_def with_sign_def negative_def)

lemma signed_cos_neg_0: "fcos signed NegZero = Fin 1"
  by (simp add: signed_def)

lemma signed_out_neg_0: "dtostr signed NegZero = ''-0''"
  by (simp add: dtostr_def signed_def sz_stream_out_def)

subsection \<open>Exponentiation and unary minus\<close>

lemma parse_pow_chain:
  "parse (fp :: ('d::equal) numerics) ''2^-3^2'' (Evaluator_new fp) =
     Some (True, (Evaluator_new fp)
       \<lparr>constants := [strtod_value fp ''2'', strtod_value fp ''3'', strtod_value fp ''2''],
        symbols := [Symbol CONSTANT 0, Symbol CONSTANT 1, Symbol CONSTANT 2,
                    Symbol OPERATOR (op_code CHR ''^''), Symbol OPERATOR (op_code CHR ''n''),
                    Symbol OPERATOR (op_code CHR ''^''), Symbol OPERATOR (op_code CHR '';'')],
        line := ''2^-3^2'', pos := 6\<rparr>)"
  by code_simp

lemma session_pow_chain:
  "session (fp :: ('d::equal) numerics) ''2^-3^2'' =
     Some (Inr (True,
       [''Understanding:'',
        ''('' @ dtostr fp (strtod_value fp ''2'') @ ''^(-('' @ dtostr fp (strtod_value fp ''3'')
          @ ''^'' @ dtostr fp (strtod_value fp ''2'') @ '')));'' @ [newline]],
       [fpow fp (strtod_value fp ''2'')
          (fneg fp (fpow fp (strtod_value fp ''3'') (strtod_value fp ''2'')))]))"
  by (simp add: session_def eval_def parse_pow_chain)
     (simp add: interp_simps)

text \<open>
  C4. The line \<open>2^-3^2\<close> is understood as \<open>2^(-(3^2))\<close>: its result is the term
  \<open>Pow 2 (Neg (Pow 3 2))\<close>, in exact arithmetic 0.001953125, its reconstruction is
  \<open>(2^(-(3^2)))\<close> (followed by the semicolon and line break that close a statement),
  and it compiles to the program of \<open>2^(-(3^2))\<close>. A chain \<open>2^3^2\<close> compiles to the
  program of \<open>2^(3^2)\<close>, not to that of \<open>(2^3)^2\<close>.
\<close>

theorem pow_right_assoc_unary_minus:
  "session symbolic ''2^-3^2'' =
     Some (Inr (True, [''Understanding:'', ''(2^(-(3^2)))'' @ '';'' @ [newline]],
                [Pow (Lit ''2'') (Neg (Pow (Lit ''3'') (Lit ''2'')))]))
   \<and> session exact ''2^-3^2'' =
     Some (Inr (True, [''Understanding:'', ''(2^(-(3^2)))'' @ '';'' @ [newline]],
                [0.001953125]))
   \<and> compiled symbolic ''2^-3^2'' = compiled symbolic ''2^(-(3^2))''
   \<and> compiled symbolic ''2^3^2'' = compiled symbolic ''2^(3^2)''
   \<and> compiled symbolic ''2^3^2'' \<noteq> compiled symbolic ''(2^3)^2''"
proof -
  have a: "session symbolic ''2^-3^2'' =
     Some (Inr (True, [''Understanding:'', ''(2^(-(3^2)))'' @ '';'' @ [newline]],
                [Pow (Lit ''2'') (Neg (Pow (Lit ''3'') (Lit ''2'')))]))"
    by code_simp
  have b: "session exact ''2^-3^2'' =
     Some (Inr (True, [''Understanding:'', ''(2^(-(3^2)))'' @ '';'' @ [newline]],
                [0.001953125]))"
    by (simp add: session_pow_chain exact_2 exact_3 exact_out_2 exact_out_3 exact_ops
          exact_pow_def)
  have c: "compiled symbolic ''2^-3^2'' = compiled symbolic ''2^(-(3^2))''"
    by code_simp
  have d: "compiled symbolic ''2^3^2'' = compiled symbolic ''2^(3^2)''"
    by code_simp
  have e: "compiled symbolic ''2^3^2'' \<noteq> compiled symbolic ''(2^3)^2''"
    by code_simp
  from a b c d e show ?thesis by blast
qed

subsection \<open>The end of the input where an operand is expected\<close>

lemma parse_eof:
  "parse (fp :: ('d::equal) numerics) ''1+'' (Evaluator_new fp) =
     Some (True, (Evaluator_new fp)
       \<lparr>constants := [strtod_value fp ''1''],
        symbols := [Symbol CONSTANT 0, Symbol OPERATOR (op_code CHR ''+''),
                    Symbol OPERATOR (op_code CHR '';'')],
        line := ''1+'', pos := 2,
        cout := [Text (''unexpected end of input'' @ [newline, newline] @ ''^'')]\<rparr>)"
  by code_simp

text \<open>
  C1. The line \<open>1+\<close> ends where an operand is expected. \<open>level_top\<close> writes
  \<open>unexpected end of input\<close> and then returns true, unlike its other error branches:
  \<open>parse\<close> accepts the line with the program \<open>1 + ;\<close>, \<open>eval\<close> does not return false,
  and the replay of the program reads an empty stack.
\<close>

theorem eof_error_accepted:
  "compiled (fp :: ('d::equal) numerics) ''1+'' =
     Some (True, [Symbol CONSTANT 0, Symbol OPERATOR (op_code CHR ''+''),
                  Symbol OPERATOR (op_code CHR '';'')], [strtod_value fp ''1''])
   \<and> map_option (\<lambda>(ok, ev). messages (cout ev)) (parse fp ''1+'' (Evaluator_new fp)) =
       Some [''unexpected end of input'' @ [newline, newline] @ ''^'']
   \<and> eval fp ''1+'' (Evaluator_new fp) \<noteq> Some (Inr (False, ev))
   \<and> session fp ''1+'' = Some (Inl EmptyStackAccess)"
  by (simp add: compiled_def session_def eval_def parse_eof)
     (simp add: interp_simps)

text \<open>
  C2. \<open>parse\<close> returns true on the line \<open>1+\<close>, and both interpreters, replaying the
  program it compiled, take the second operand of \<open>+\<close> from an empty stack.
\<close>

theorem eof_program_underflows:
  "\<exists>ev. parse (fp :: ('d::equal) numerics) ''1+'' (Evaluator_new fp) = Some (True, ev)
      \<and> understanding fp ev = Inl EmptyStackAccess
      \<and> run fp ev = Inl EmptyStackAccess"
  by (simp add: parse_eof) (simp add: interp_simps)

subsection \<open>Division by zero\<close>

lemma parse_div_zero:
  "parse (fp :: ('d::equal) numerics) ''1/0'' (Evaluator_new fp) =
     Some (True, (Evaluator_new fp)
       \<lparr>constants := [strtod_value fp ''1'', strtod_value fp ''0''],
        symbols := [Symbol CONSTANT 0, Symbol CONSTANT 1, Symbol OPERATOR (op_code CHR ''/''),
                    Symbol OPERATOR (op_code CHR '';'')],
        line := ''1/0'', pos := 3\<rparr>)"
  by code_simp

text \<open>
  C10. In every instance of the numerics, the line \<open>1/0\<close> is parsed, \<open>eval\<close> returns
  true and the one result written is whatever the division of the platform gives for
  the two constants. The step of \<open>run\<close> for the operator \<open>/\<close> applies the division to
  the two topmost values, whatever the divisor is, and goes on.
\<close>

theorem division_by_zero_no_error:
  "session (fp :: ('d::equal) numerics) ''1/0'' =
     Some (Inr (True,
       [''Understanding:'',
        ''('' @ dtostr fp (strtod_value fp ''1'') @ ''/'' @ dtostr fp (strtod_value fp ''0'')
          @ '');'' @ [newline]],
       [fdiv fp (strtod_value fp ''1'') (strtod_value fp ''0'')]))
   \<and> run_loop fp cs (Symbol OPERATOR (op_code CHR ''/'') # sys) (b # a # s) out =
       run_loop fp cs sys (fdiv fp a b # s) out"
  by (simp add: session_def eval_def parse_div_zero)
     (simp add: interp_simps)

subsection \<open>Several statements on a line\<close>

lemma parse_two_statements:
  "parse (fp :: ('d::equal) numerics) ''2+2;3*3'' (Evaluator_new fp) =
     Some (True, (Evaluator_new fp)
       \<lparr>constants := [strtod_value fp ''2'', strtod_value fp ''2'',
                      strtod_value fp ''3'', strtod_value fp ''3''],
        symbols := [Symbol CONSTANT 0, Symbol CONSTANT 1, Symbol OPERATOR (op_code CHR ''+''),
                    Symbol OPERATOR (op_code CHR '';''),
                    Symbol CONSTANT 2, Symbol CONSTANT 3, Symbol OPERATOR (op_code CHR ''*''),
                    Symbol OPERATOR (op_code CHR '';'')],
        line := ''2+2;3*3'', pos := 7\<rparr>)"
  by code_simp

lemma session_two_statements:
  "session (fp :: ('d::equal) numerics) ''2+2;3*3'' =
     Some (Inr (True,
       [''Understanding:'',
        ''('' @ dtostr fp (strtod_value fp ''2'') @ ''+'' @ dtostr fp (strtod_value fp ''2'')
          @ '');'' @ [newline]
          @ ''('' @ dtostr fp (strtod_value fp ''3'') @ ''*'' @ dtostr fp (strtod_value fp ''3'')
          @ '');'' @ [newline]],
       [fadd fp (strtod_value fp ''2'') (strtod_value fp ''2''),
        fmul fp (strtod_value fp ''3'') (strtod_value fp ''3'')]))"
  by (simp add: session_def eval_def parse_two_statements)
     (simp add: interp_simps)

lemma evaluations_append [simp]: "evaluations (xs @ ys) = evaluations xs @ evaluations ys"
  by (induction xs rule: evaluations.induct) simp_all

lemma messages_append [simp]: "messages (xs @ ys) = messages xs @ messages ys"
  by (induction xs rule: messages.induct) simp_all

lemma run_loop_evaluations:
  "run_loop fp cs sys s out = Inr (True, out') \<Longrightarrow>
   length (evaluations out') = length (evaluations out) + count_list sys statement_end"
proof (induction fp cs sys s out rule: run_loop.induct)
  case (1 fp cs s out)
  then show ?case by (simp split: if_splits)
next
  case (2 fp cs v sys s out)
  then show ?case by (simp add: statement_end_def split: if_splits)
next
  case (3 fp cs v sys s out)
  then show ?case by (simp add: statement_end_def split: list.splits option.splits)
next
  case (4 fp cs v sys s out)
  then show ?case
    by (auto simp: statement_end_def split: list.splits option.splits if_splits)
next
  case (5 fp cs v sys s out)
  then show ?case by (simp add: statement_end_def)
qed

text \<open>
  C7. The line \<open>2+2;3*3\<close> compiles to one program, in which each of the two statements
  ends with the statement-end symbol, and \<open>eval\<close> writes the two results in the order of
  the source: the terms \<open>2+2\<close> and \<open>3*3\<close>, in exact arithmetic 4 and 9. In general, a
  successful \<open>run\<close> writes as many results as the program has statement-end symbols.
\<close>

theorem one_result_per_statement:
  "compiled symbolic ''2+2;3*3'' =
     Some (True,
       [Symbol CONSTANT 0, Symbol CONSTANT 1, Symbol OPERATOR (op_code CHR ''+''), statement_end,
        Symbol CONSTANT 2, Symbol CONSTANT 3, Symbol OPERATOR (op_code CHR ''*''), statement_end],
       [Lit ''2'', Lit ''2'', Lit ''3'', Lit ''3''])
   \<and> session symbolic ''2+2;3*3'' =
     Some (Inr (True, [''Understanding:'', ''(2+2);'' @ [newline] @ ''(3*3);'' @ [newline]],
                [Add (Lit ''2'') (Lit ''2''), Mul (Lit ''3'') (Lit ''3'')]))
   \<and> session exact ''2+2;3*3'' =
     Some (Inr (True, [''Understanding:'', ''(2+2);'' @ [newline] @ ''(3*3);'' @ [newline]],
                [4, 9]))
   \<and> (run fp ev = Inr (True, ev') \<longrightarrow>
        length (evaluations (cout ev')) =
          length (evaluations (cout ev)) + count_list (symbols ev) statement_end)"
proof -
  have a: "compiled symbolic ''2+2;3*3'' =
     Some (True,
       [Symbol CONSTANT 0, Symbol CONSTANT 1, Symbol OPERATOR (op_code CHR ''+''), statement_end,
        Symbol CONSTANT 2, Symbol CONSTANT 3, Symbol OPERATOR (op_code CHR ''*''), statement_end],
       [Lit ''2'', Lit ''2'', Lit ''3'', Lit ''3''])"
    by code_simp
  have b: "session symbolic ''2+2;3*3'' =
     Some (Inr (True, [''Understanding:'', ''(2+2);'' @ [newline] @ ''(3*3);'' @ [newline]],
                [Add (Lit ''2'') (Lit ''2''), Mul (Lit ''3'') (Lit ''3'')]))"
    by code_simp
  have c: "session exact ''2+2;3*3'' =
     Some (Inr (True, [''Understanding:'', ''(2+2);'' @ [newline] @ ''(3*3);'' @ [newline]],
                [4, 9]))"
    by (simp add: session_two_statements exact_2 exact_3 exact_out_2 exact_out_3 exact_ops)
  have d: "run fp ev = Inr (True, ev') \<longrightarrow>
        length (evaluations (cout ev')) =
          length (evaluations (cout ev)) + count_list (symbols ev) statement_end"
    by (auto simp: run_def split: sum.splits dest: run_loop_evaluations)
  from a b c d show ?thesis by blast
qed

theorem one_result_per_statement_witness:
  "\<exists>ev ev'. run symbolic ev = Inr (True, ev') \<and> count_list (symbols ev) statement_end = 2
      \<and> length (evaluations (cout ev')) = length (evaluations (cout ev)) + 2"
proof -
  obtain ev where p: "parse symbolic ''2+2;3*3'' (Evaluator_new symbolic) = Some (True, ev)"
    by (simp add: parse_two_statements)
  then have ev: "ev = (Evaluator_new symbolic)
       \<lparr>constants := [Lit ''2'', Lit ''2'', Lit ''3'', Lit ''3''],
        symbols := [Symbol CONSTANT 0, Symbol CONSTANT 1, Symbol OPERATOR (op_code CHR ''+''),
                    Symbol OPERATOR (op_code CHR '';''),
                    Symbol CONSTANT 2, Symbol CONSTANT 3, Symbol OPERATOR (op_code CHR ''*''),
                    Symbol OPERATOR (op_code CHR '';'')],
        line := ''2+2;3*3'', pos := 7\<rparr>"
    by (simp add: parse_two_statements symbolic_def)
  obtain ev' where r: "run symbolic ev = Inr (True, ev')"
    unfolding ev by (simp add: interp_simps)
  have n: "count_list (symbols ev) statement_end = 2"
    unfolding ev by (simp add: statement_end_def op_code_def)
  from one_result_per_statement[of symbolic ev ev'] r n show ?thesis by auto
qed

subsection \<open>Blank lines\<close>

lemma eatspace_blank:
  "pos ev \<le> length (line ev) \<Longrightarrow> list_all isspace (drop (pos ev) (line ev)) \<Longrightarrow>
   eatspace ev = ev\<lparr>pos := length (line ev)\<rparr>"
proof (induction ev rule: eatspace.induct)
  case (1 ev)
  show ?case
  proof (cases "pos ev < length (line ev)")
    case True
    then have d: "drop (pos ev) (line ev) = line ev ! pos ev # drop (Suc (pos ev)) (line ev)"
      by (simp add: Cons_nth_drop_Suc)
    with 1(3) have sp: "isspace (cur ev)" and rest: "list_all isspace (drop (Suc (pos ev)) (line ev))"
      using True by (simp_all add: cur_def char_at_def)
    have "eatspace (ev\<lparr>pos := pos ev + 1\<rparr>) = ev\<lparr>pos := pos ev + 1\<rparr>\<lparr>pos := length (line ev)\<rparr>"
      using 1(1)[OF sp] True rest by simp
    moreover have "eatspace ev = eatspace (ev\<lparr>pos := pos ev + 1\<rparr>)"
      using sp by (subst eatspace.simps) simp
    ultimately show ?thesis by simp
  next
    case False
    with 1(2) have e: "pos ev = length (line ev)" by simp
    then have "cur ev = NUL" by (simp add: cur_def char_at_def)
    then have "\<not> isspace (cur ev)" by (simp add: isspace_def NUL_def)
    then have "eatspace ev = ev" by (subst eatspace.simps) simp
    with e show ?thesis by simp
  qed
qed

lemma parse_loop_at_end: "cur ev = NUL \<Longrightarrow> 0 < n \<Longrightarrow> parse_loop fp n ev = Some (True, ev)"
  by (cases n) simp_all

text \<open>
  C9. A line that is empty or holds only whitespace is accepted: \<open>parse\<close> returns true
  and adds no symbol, \<open>eval\<close> returns true, and the only output is the heading of the
  understanding and its empty text; no result and no error is written.
\<close>

theorem blank_line_succeeds:
  assumes "list_all isspace str"
  shows "eval fp str (clear ev) =
           Some (Inr (True, (clear ev)\<lparr>line := str, pos := length str,
                                       cout := cout ev @ [Text ''Understanding:'', Text []]\<rparr>))
         \<and> parse fp str (clear ev) = Some (True, (clear ev)\<lparr>line := str, pos := length str\<rparr>)
         \<and> session fp str = Some (Inr (True, [''Understanding:'', []], []))"
proof -
  have es: "eatspace (e\<lparr>line := str, pos := 0\<rparr>) = e\<lparr>line := str, pos := length str\<rparr>"
    for e :: "'a Evaluator"
    using eatspace_blank[of "e\<lparr>line := str, pos := 0\<rparr>"] assms by simp
  have c: "cur (e\<lparr>line := str, pos := length str\<rparr>) = NUL" for e :: "'a Evaluator"
    by (simp add: cur_def char_at_def)
  have pl: "parse_loop fp (5 * length str + 7) (e\<lparr>line := str, pos := length str\<rparr>)
              = Some (True, e\<lparr>line := str, pos := length str\<rparr>)" for e :: "'a Evaluator"
    by (rule parse_loop_at_end[OF c]) simp
  have p: "parse fp str e = Some (True, e\<lparr>line := str, pos := length str\<rparr>)"
    for e :: "'a Evaluator"
    by (simp add: parse_def es pl)
  show ?thesis
    by (simp add: session_def eval_def p clear_def understanding_def run_def println_def
          Evaluator_new_def)
qed

theorem blank_line_succeeds_witness:
  "list_all isspace ''  '' \<and> session symbolic ''  '' = Some (Inr (True, [''Understanding:'', []], []))
   \<and> list_all isspace [] \<and> session symbolic [] = Some (Inr (True, [''Understanding:'', []], []))"
proof -
  have a: "list_all isspace ''  ''" by (simp add: isspace_def)
  have b: "list_all isspace []" by simp
  from blank_line_succeeds[OF a, of symbolic] blank_line_succeeds[OF b, of symbolic] a b
  show ?thesis by simp
qed

subsection \<open>Identifiers\<close>

lemma name_start:
  assumes "isalpha c \<or> c = CHR ''_''"
  shows "\<not> isdigit c" "c \<noteq> CHR ''(''" "c \<noteq> NUL"
  using assms by (auto simp: isalpha_def isdigit_def NUL_def)

lemma find_variable_from_eq:
  "find_variable_from vs nm i = i + length (takeWhile (\<lambda>v. var_name v \<noteq> nm) vs)"
  by (induction vs nm i rule: find_variable_from.induct) simp_all

lemma find_variable_found:
  "find (\<lambda>v. var_name v = nm) vs = Some v \<Longrightarrow>
   find_variable_from vs nm 0 < length vs \<and> vs ! find_variable_from vs nm 0 = v"
  by (induction vs) (auto simp: find_variable_from_eq split: if_splits)

lemma find_variable_missing:
  "find (\<lambda>v. var_name v = nm) vs = None \<Longrightarrow> find_variable_from vs nm 0 = length vs"
  by (induction vs) (auto simp: find_variable_from_eq split: if_splits)

lemma level_top_name:
  assumes c: "isalpha (cur ev) \<or> cur ev = CHR ''_''" and gn: "get_name ev = (nm, ev1)"
  shows "level_top fp (Suc n) ev =
     (case fn_code nm of
        Some f \<Rightarrow>
          (case level3 fp n (eatspace ev1) of
             None \<Rightarrow> None
           | Some (ok, ev3) \<Rightarrow>
               if \<not> ok then Some (False, ev3)
               else Some (True, push_symbol (Symbol MATHFN f) ev3))
      | None \<Rightarrow>
          (case find (\<lambda>v. var_name v = nm) (variables (eatspace ev1)) of
             Some v \<Rightarrow>
               Some (True, push_symbol (Symbol CONSTANT (length (constants (eatspace ev1))))
                             (push_constant (var_value v) (eatspace ev1)))
           | None \<Rightarrow>
               Some (False, println (error (eatspace ev1) (''unknown name: '' @ nm))
                              (eatspace ev1))))"
proof (cases "fn_code nm")
  case (Some f)
  then show ?thesis using name_start[OF c] c gn by (simp add: Let_def)
next
  case None
  show ?thesis
  proof (cases "find (\<lambda>v. var_name v = nm) (variables (eatspace ev1))")
    case fnd: None
    from find_variable_missing[OF fnd] show ?thesis
      using name_start[OF c] c gn None fnd by (simp add: Let_def find_variable_def)
  next
    case fnd: (Some v)
    from find_variable_found[OF fnd] show ?thesis
      using name_start[OF c] c gn None fnd
      by (simp add: Let_def find_variable_def push_constant_def)
  qed
qed

lemma parse_foo:
  "parse (fp :: ('d::equal) numerics) ''foo'' (Evaluator_new fp) =
     Some (False, (Evaluator_new fp)
       \<lparr>line := ''foo'', pos := 3,
        cout := [Text (''unknown name: foo'' @ [newline, newline] @ ''^'')]\<rparr>)"
  by code_simp

text \<open>
  C6. With the cursor on an identifier \<open>nm\<close>, \<open>level_top\<close> first compares \<open>nm\<close> with the
  five function names, whatever the variables are; only then it looks for the first
  variable whose name is exactly \<open>nm\<close> and pushes its value as a constant; a name that is
  neither makes it print \<open>unknown name\<close> and return false, leaving the program as it
  was. A new evaluator knows the variables \<open>e\<close> and \<open>pi\<close>. The line \<open>foo\<close> makes \<open>eval\<close>
  return false, with the error message as the only output.
\<close>

theorem identifier_resolution:
  fixes fp :: "('d::equal) numerics"
  assumes "isalpha (cur ev) \<or> cur ev = CHR ''_''" and "get_name ev = (nm, ev1)"
    and "ev2 = eatspace ev1"
  shows "(nm \<in> {''cos'', ''exp'', ''log'', ''sin'', ''tan''} \<longrightarrow>
            (\<exists>f. fn_code nm = Some f \<and> f \<in> {EXP, COS, LOG, SIN, TAN} \<and>
              level_top fp (Suc n) ev =
                (case level3 fp n ev2 of
                   None \<Rightarrow> None
                 | Some (ok, ev3) \<Rightarrow>
                     if ok then Some (True, push_symbol (Symbol MATHFN f) ev3)
                     else Some (False, ev3))))
       \<and> (nm \<notin> {''cos'', ''exp'', ''log'', ''sin'', ''tan''} \<longrightarrow>
            find (\<lambda>v. var_name v = nm) (variables ev2) = Some v \<longrightarrow>
              level_top fp (Suc n) ev =
                Some (True, push_symbol (Symbol CONSTANT (length (constants ev2)))
                              (push_constant (var_value v) ev2)))
       \<and> (nm \<notin> {''cos'', ''exp'', ''log'', ''sin'', ''tan''} \<longrightarrow>
            find (\<lambda>v. var_name v = nm) (variables ev2) = None \<longrightarrow>
              level_top fp (Suc n) ev =
                Some (False, println (error ev2 (''unknown name: '' @ nm)) ev2))
       \<and> map var_name (variables (Evaluator_new fp)) = [''e'', ''pi'']
       \<and> session fp ''foo'' =
           Some (Inr (False, [''unknown name: foo'' @ [newline, newline] @ ''^''], []))"
proof -
  have "session fp ''foo'' =
           Some (Inr (False, [''unknown name: foo'' @ [newline, newline] @ ''^''], []))"
    by (simp add: session_def eval_def parse_foo)
  then show ?thesis
    using level_top_name[OF assms(1,2), of fp n] assms(3)
    by (auto simp: fn_code_def Evaluator_new_def EXP_def COS_def LOG_def SIN_def TAN_def
             split: if_splits option.splits)
qed

theorem identifier_resolution_witness:
  "level_top symbolic (Suc 0) ((Evaluator_new symbolic)\<lparr>line := ''foo''\<rparr>) =
     Some (False, (Evaluator_new symbolic)
       \<lparr>line := ''foo'', pos := 3,
        cout := [Text (''unknown name: foo'' @ [newline, newline] @ ''^'')]\<rparr>)
   \<and> level_top symbolic (Suc 0) ((Evaluator_new symbolic)\<lparr>line := ''pi''\<rparr>) =
     Some (True, (Evaluator_new symbolic)
       \<lparr>line := ''pi'', pos := 2, constants := [Lit ''3.1415926535897932384626''],
        symbols := [Symbol CONSTANT 0]\<rparr>)"
proof -
  let ?a = "(Evaluator_new symbolic)\<lparr>line := ''foo''\<rparr>"
  let ?b = "(Evaluator_new symbolic)\<lparr>line := ''pi''\<rparr>"
  let ?pi = "Variable ''pi'' (Lit ''3.1415926535897932384626'')"
  have a1: "isalpha (cur ?a) \<or> cur ?a = CHR ''_''" by code_simp
  have a2: "get_name ?a = (''foo'', ?a\<lparr>pos := 3\<rparr>)" by code_simp
  have a3: "?a\<lparr>pos := 3\<rparr> = eatspace (?a\<lparr>pos := 3\<rparr>)" by code_simp
  have a4: "''foo'' \<notin> {''cos'', ''exp'', ''log'', ''sin'', ''tan''}" by simp
  have a5: "find (\<lambda>v. var_name v = ''foo'') (variables (?a\<lparr>pos := 3\<rparr>)) = None"
    by code_simp
  have a6: "println (error (?a\<lparr>pos := 3\<rparr>) (''unknown name: '' @ ''foo'')) (?a\<lparr>pos := 3\<rparr>)
              = (Evaluator_new symbolic)
                  \<lparr>line := ''foo'', pos := 3,
                   cout := [Text (''unknown name: foo'' @ [newline, newline] @ ''^'')]\<rparr>"
    by code_simp
  have b1: "isalpha (cur ?b) \<or> cur ?b = CHR ''_''" by code_simp
  have b2: "get_name ?b = (''pi'', ?b\<lparr>pos := 2\<rparr>)" by code_simp
  have b3: "?b\<lparr>pos := 2\<rparr> = eatspace (?b\<lparr>pos := 2\<rparr>)" by code_simp
  have b4: "''pi'' \<notin> {''cos'', ''exp'', ''log'', ''sin'', ''tan''}" by simp
  have b5: "find (\<lambda>v. var_name v = ''pi'') (variables (?b\<lparr>pos := 2\<rparr>)) = Some ?pi"
    by code_simp
  have b6: "push_symbol (Symbol CONSTANT (length (constants (?b\<lparr>pos := 2\<rparr>))))
              (push_constant (var_value ?pi) (?b\<lparr>pos := 2\<rparr>))
              = (Evaluator_new symbolic)
                  \<lparr>line := ''pi'', pos := 2, constants := [Lit ''3.1415926535897932384626''],
                   symbols := [Symbol CONSTANT 0]\<rparr>"
    by code_simp
  note a = identifier_resolution[OF a1 a2 a3, where fp = symbolic and n = 0,
             THEN conjunct2, THEN conjunct2, THEN conjunct1, rule_format, OF a4 a5]
  note b = identifier_resolution[OF b1 b2 b3, where fp = symbolic and n = 0 and v = ?pi,
             THEN conjunct2, THEN conjunct1, rule_format, OF b4 b5]
  show ?thesis
    unfolding a b a6 b6 by (rule conjI) (rule refl)+
qed


lemma parse_sin_neg_zero:
  "parse (fp :: ('d::equal) numerics) ''sin -0'' (Evaluator_new fp) =
     Some (True, (Evaluator_new fp)
       \<lparr>constants := [strtod_value fp ''0''],
        symbols := [Symbol CONSTANT 0, Symbol OPERATOR (op_code CHR ''n''), Symbol MATHFN SIN,
                    Symbol OPERATOR (op_code CHR '';'')],
        line := ''sin -0'', pos := 6\<rparr>)"
  by code_simp

lemma parse_cos_neg_zero:
  "parse (fp :: ('d::equal) numerics) ''cos -0'' (Evaluator_new fp) =
     Some (True, (Evaluator_new fp)
       \<lparr>constants := [strtod_value fp ''0''],
        symbols := [Symbol CONSTANT 0, Symbol OPERATOR (op_code CHR ''n''), Symbol MATHFN COS,
                    Symbol OPERATOR (op_code CHR '';'')],
        line := ''cos -0'', pos := 6\<rparr>)"
  by code_simp

lemma session_sin_neg_zero:
  "session (fp :: ('d::equal) numerics) ''sin -0'' =
     Some (Inr (True,
       [''Understanding:'', ''sin((-'' @ dtostr fp (strtod_value fp ''0'') @ ''));'' @ [newline]],
       [fsin fp (fneg fp (strtod_value fp ''0''))]))"
  by (simp add: session_def eval_def parse_sin_neg_zero)
     (simp add: interp_simps)

lemma session_cos_neg_zero:
  "session (fp :: ('d::equal) numerics) ''cos -0'' =
     Some (Inr (True,
       [''Understanding:'', ''cos((-'' @ dtostr fp (strtod_value fp ''0'') @ ''));'' @ [newline]],
       [fcos fp (fneg fp (strtod_value fp ''0''))]))"
  by (simp add: session_def eval_def parse_cos_neg_zero)
     (simp add: interp_simps)

text \<open>
  C5. With the cursor on a function name, \<open>level_top\<close> skips the name and the
  whitespace, parses one operand with \<open>level3\<close>, the level of unary minus, and appends
  the function's symbol. So \<open>sin cos 2\<close> is \<open>sin(cos(2))\<close>, \<open>sin 2^3\<close> is \<open>sin(2^3)\<close> and
  \<open>cos 2^3*4\<close> is \<open>(cos(2^3))*4\<close>. With a signed zero, \<open>sin -0\<close> is the sine of the
  negative zero, which is the negative zero: a zero (numerically equal to 0) that the
  program writes as \<open>-0\<close>; \<open>cos -0\<close> is 1.
\<close>

theorem prefix_function_application:
  assumes "isalpha (cur ev) \<or> cur ev = CHR ''_''" and "get_name ev = (nm, ev1)"
    and "fn_code nm = Some f"
  shows "level_top fp (Suc n) ev =
           (case level3 fp n (eatspace ev1) of
              None \<Rightarrow> None
            | Some (ok, ev3) \<Rightarrow>
                if ok then Some (True, push_symbol (Symbol MATHFN f) ev3)
                else Some (False, ev3))
       \<and> session symbolic ''sin cos 2'' =
           Some (Inr (True, [''Understanding:'', ''sin(cos(2));'' @ [newline]],
                      [Sin (Cos (Lit ''2''))]))
       \<and> session symbolic ''sin 2^3'' =
           Some (Inr (True, [''Understanding:'', ''sin((2^3));'' @ [newline]],
                      [Sin (Pow (Lit ''2'') (Lit ''3''))]))
       \<and> compiled symbolic ''sin cos 2'' = compiled symbolic ''sin(cos(2))''
       \<and> compiled symbolic ''sin 2^3'' = compiled symbolic ''sin(2^3)''
       \<and> compiled symbolic ''cos 2^3*4'' = compiled symbolic ''(cos(2^3))*4''
       \<and> session signed ''sin -0'' =
           Some (Inr (True, [''Understanding:'', ''sin((-0));'' @ [newline]], [NegZero]))
       \<and> to_real NegZero = 0 \<and> dtostr signed NegZero = ''-0''
       \<and> session signed ''cos -0'' =
           Some (Inr (True, [''Understanding:'', ''cos((-0));'' @ [newline]], [Fin 1]))"
proof -
  have a: "level_top fp (Suc n) ev =
           (case level3 fp n (eatspace ev1) of
              None \<Rightarrow> None
            | Some (ok, ev3) \<Rightarrow>
                if ok then Some (True, push_symbol (Symbol MATHFN f) ev3)
                else Some (False, ev3))"
    using level_top_name[OF assms(1,2), of fp n] assms(3)
    by (auto split: option.splits)
  have b: "session symbolic ''sin cos 2'' =
           Some (Inr (True, [''Understanding:'', ''sin(cos(2));'' @ [newline]],
                      [Sin (Cos (Lit ''2''))]))"
    by code_simp
  have c: "session symbolic ''sin 2^3'' =
           Some (Inr (True, [''Understanding:'', ''sin((2^3));'' @ [newline]],
                      [Sin (Pow (Lit ''2'') (Lit ''3''))]))"
    by code_simp
  have d: "compiled symbolic ''sin cos 2'' = compiled symbolic ''sin(cos(2))''"
    by code_simp
  have e: "compiled symbolic ''sin 2^3'' = compiled symbolic ''sin(2^3)''"
    by code_simp
  have f: "compiled symbolic ''cos 2^3*4'' = compiled symbolic ''(cos(2^3))*4''"
    by code_simp
  have g: "session signed ''sin -0'' =
           Some (Inr (True, [''Understanding:'', ''sin((-0));'' @ [newline]], [NegZero]))"
    by (simp add: session_sin_neg_zero signed_0 signed_out_0 signed_neg_0 signed_sin_neg_0)
  have h: "session signed ''cos -0'' =
           Some (Inr (True, [''Understanding:'', ''cos((-0));'' @ [newline]], [Fin 1]))"
    by (simp add: session_cos_neg_zero signed_0 signed_out_0 signed_neg_0 signed_cos_neg_0)
  have i: "to_real NegZero = 0" "dtostr signed NegZero = ''-0''"
    by (simp_all add: signed_out_neg_0)
  from a b c d e f g h i show ?thesis by blast
qed

theorem prefix_function_application_witness:
  "level_top symbolic (Suc 4) ((Evaluator_new symbolic)\<lparr>line := ''sin -2''\<rparr>) =
     Some (True, (Evaluator_new symbolic)
       \<lparr>line := ''sin -2'', pos := 6, constants := [Lit ''2''],
        symbols := [Symbol CONSTANT 0, Symbol OPERATOR (op_code CHR ''n''), Symbol MATHFN SIN]\<rparr>)"
proof -
  let ?a = "(Evaluator_new symbolic)\<lparr>line := ''sin -2''\<rparr>"
  have a1: "isalpha (cur ?a) \<or> cur ?a = CHR ''_''" by code_simp
  have a2: "get_name ?a = (''sin'', ?a\<lparr>pos := 3\<rparr>)" by code_simp
  have a3: "fn_code ''sin'' = Some SIN" by code_simp
  have a4: "(case level3 symbolic 4 (eatspace (?a\<lparr>pos := 3\<rparr>)) of
              None \<Rightarrow> None
            | Some (ok, ev3) \<Rightarrow>
                if ok then Some (True, push_symbol (Symbol MATHFN SIN) ev3)
                else Some (False, ev3))
          = Some (True, (Evaluator_new symbolic)
       \<lparr>line := ''sin -2'', pos := 6, constants := [Lit ''2''],
        symbols := [Symbol CONSTANT 0, Symbol OPERATOR (op_code CHR ''n''), Symbol MATHFN SIN]\<rparr>)"
    by code_simp
  note a = prefix_function_application[OF a1 a2 a3, where fp = symbolic and n = 4, THEN conjunct1]
  show ?thesis unfolding a a4 by (rule refl)
qed

section \<open>Reading the reconstruction back\<close>

subsection \<open>What a parsing function returns when it returns\<close>



















subsection \<open>The parser on the printed text of a tree\<close>





lemma sees_push_symbol [simp]: "sees (push_symbol sy ev) s = sees ev s"
  by (simp add: sees_def push_symbol_def)

lemma sees_push_constant [simp]: "sees (push_constant x ev) s = sees ev s"
  by (simp add: sees_def push_constant_def)

























lemma constants_emitted [simp]:
  "length (constants (emitted fp cs t ev)) = length (constants ev) + length (leaves t)"
  by (simp add: emitted_def)

lemma cur_record [simp]:
  "cur (ev\<lparr>symbols := sy\<rparr>) = cur ev" "cur (ev\<lparr>constants := c\<rparr>) = cur ev"
  by (simp_all add: cur_def)


subsection \<open>The parser and the printer on a program\<close>











subsection \<open>Lines whose reconstruction reads differently\<close>






















subsection \<open>The round trip\<close>






end
